theory Spec2Isabelle
  imports Main "HOL-Library.Word"
begin

section \<open>The tux3 delta flusher (fs/tux3/commit_flusher.c)\<close>

text \<open>
  The file has two build configurations, selected by \<^verbatim>\<open>TUX3_FLUSHER\<close>:
  \<^item> \<^verbatim>\<open>TUX3_FLUSHER_SYNC\<close> (lines 7-131): the caller of \<^verbatim>\<open>sync_current_delta\<close> drives the
    delta transition and the flush itself;
  \<^item> \<^verbatim>\<open>TUX3_FLUSHER_ASYNC\<close> (lines 133-236): the kernel's writeback task calls
    \<^verbatim>\<open>tux3_writeback\<close>, and \<^verbatim>\<open>sync_current_delta\<close> only waits for \<^verbatim>\<open>sync_inodes_sb\<close>.

  One thread is modelled in direct style: a function takes the state and returns the
  outcome. Everything the thread does not do itself is explicit: what other threads did
  to the shared volume while this one slept is a list of \<open>wakeup\<close>s, and the
  functions of fs/tux3/commit.c (\<^verbatim>\<open>delta_get\<close>, \<^verbatim>\<open>delta_put\<close>, \<^verbatim>\<open>delta_transition\<close>,
  \<^verbatim>\<open>flush_delta\<close>) and the kernel's \<^verbatim>\<open>sync_inodes_sb\<close> are parameters, collected in
  the record \<open>collab\<close>. The flag elections are modelled a second time as machines of
  atomic steps, one program point per source line, so that threads can be interleaved.

  \<^verbatim>\<open>tux3_init_flusher\<close>, \<^verbatim>\<open>tux3_exit_flusher\<close>, \<^verbatim>\<open>schedule_flush_delta\<close> and
  \<^verbatim>\<open>try_delta_transition\<close> are not called by the functions studied here and are left
  out.
\<close>

subsection \<open>Data\<close>

text \<open>\<^verbatim>\<open>unsigned\<close> is 32 bits wide on every Linux target.\<close>

type_synonym delta_t = "32 word"

text \<open>
  The two bits of \<^verbatim>\<open>sb->backend_state\<close> this file uses. Their numbers are declared in
  tux3.h; the model keeps the word as the set of the bits that are set.
\<close>

datatype commit_bit = TUX3_COMMIT_RUNNING_BIT | TUX3_COMMIT_PENDING_BIT

datatype unify_flags = NO_UNIFY | ALLOW_UNIFY | FORCE_UNIFY

text \<open>A read-write semaphore: whether a writer holds it, and how many readers do.\<close>

record rwsem =
  writer :: bool
  readers :: nat

record delta_ref =
  delta :: delta_t

text \<open>
  \<^verbatim>\<open>struct sb\<close>, with the fields this file reads or writes, and the two fields of its
  \<^verbatim>\<open>struct super_block\<close> (\<^verbatim>\<open>vfs_sb(sb)\<close>) that the async configuration uses:
  the \<^verbatim>\<open>MS_ACTIVE\<close> bit of \<^verbatim>\<open>s_flags\<close> and the semaphore \<^verbatim>\<open>s_umount\<close>.
\<close>

record sb =
  staging_delta :: delta_t
  committed_delta :: delta_t
  backend_state :: "commit_bit set"
  delta_lock :: rwsem
  s_flags_MS_ACTIVE :: bool
  s_umount :: rwsem

text \<open>
  What the thread does that a caller cannot read off the volume afterwards: the calls to
  the collaborators, the atomic read-modify-write operations on \<^verbatim>\<open>backend_state\<close>, and
  \<^verbatim>\<open>WARN_ON\<close> firing.
\<close>

datatype event =
    Ev_delta_get
  | Ev_delta_put
  | Ev_delta_transition
  | Ev_flush_delta
  | Ev_sync_inodes_sb
  | Ev_test_and_set_bit commit_bit
  | Ev_test_and_clear_bit commit_bit
  | Ev_clear_bit commit_bit
  | Ev_WARN

text \<open>
  The state one thread runs in: the shared volume, whether a fatal signal is pending for
  the thread (\<^verbatim>\<open>fatal_signal_pending(current)\<close>), the caller's \<^verbatim>\<open>*nr_pages\<close>, and the
  trace of events so far.
\<close>

record state =
  vol :: sb
  fatal_signal :: bool
  nr_pages :: int
  trace :: "event list"

text \<open>
  One sleep of the thread: what the other threads did to the volume meanwhile, and
  whether a fatal signal was sent to the sleeper.
\<close>

record wakeup =
  others :: "sb \<Rightarrow> sb"
  kill :: bool

text \<open>
  How a call ends: it returns a value, in a state, with the wakeups it has not used; or
  it is still asleep when the wakeups are used up; or an \<^verbatim>\<open>assert\<close> fails.
\<close>

datatype 'a outcome =
    Returns 'a state "wakeup list"
  | Blocks state
  | Assert_fails state

text \<open>The collaborators that live outside this file.\<close>

record collab =
  delta_get :: "sb \<Rightarrow> delta_ref \<times> sb"
  delta_put :: "delta_ref \<Rightarrow> sb \<Rightarrow> sb"
  delta_transition :: "sb \<Rightarrow> sb"
  flush_delta :: "sb \<Rightarrow> int \<times> sb"
  sync_inodes_sb :: "sb \<Rightarrow> sb"

subsection \<open>Epoch comparison\<close>

text \<open>
  Modelled from the spec: \<^verbatim>\<open>delta_after_eq\<close> is declared in tux3.h, which is not among
  the sources. The spec defines it as the signed difference of the unsigned values:
  \<open>a - b\<close>, computed with wrap-around, read as a signed quantity, is \<open>\<ge> 0\<close>.
\<close>

definition delta_after_eq :: "delta_t \<Rightarrow> delta_t \<Rightarrow> bool" where
  "delta_after_eq a b \<longleftrightarrow> 0 \<le> sint (a - b)"

text \<open>Half of the range of the counter.\<close>

definition HALF_RANGE :: nat where
  "HALF_RANGE = 2 ^ 31"

subsection \<open>Kernel primitives\<close>

text \<open>
  The macros and functions of include/linux that the file calls are not among the
  sources. Each is modelled below from what the spec says of it and from what the
  call in the source shows (whether it has a value, and what is done with it).
\<close>

text \<open>Two abbreviations: a change of the volume, and an event added to the trace.\<close>

definition map_vol :: "(sb \<Rightarrow> sb) \<Rightarrow> state \<Rightarrow> state" where
  "map_vol f s = s\<lparr>vol := f (vol s)\<rparr>"

definition log :: "event \<Rightarrow> state \<Rightarrow> state" where
  "log e s = s\<lparr>trace := trace s @ [e]\<rparr>"

text \<open>
  Modelled from the spec: the bit operations on \<^verbatim>\<open>sb->backend_state\<close>
  (include/linux/bitops.h). The spec: the flags are set and cleared with atomic
  test-and-set and test-and-clear, so that exactly one observer sees a change.
  \<^verbatim>\<open>test_bit\<close> only reads. \<^verbatim>\<open>test_and_set_bit\<close> and \<^verbatim>\<open>test_and_clear_bit\<close> return the
  old value of the bit and write the new one in one step. \<^verbatim>\<open>clear_bit\<close> writes and
  returns nothing.
\<close>

definition test_bit :: "commit_bit \<Rightarrow> state \<Rightarrow> bool" where
  "test_bit b s \<longleftrightarrow> b \<in> backend_state (vol s)"

definition test_and_set_bit :: "commit_bit \<Rightarrow> state \<Rightarrow> bool \<times> state" where
  "test_and_set_bit b s =
     (test_bit b s,
      log (Ev_test_and_set_bit b)
        (map_vol (\<lambda>v. v\<lparr>backend_state := insert b (backend_state v)\<rparr>) s))"

definition test_and_clear_bit :: "commit_bit \<Rightarrow> state \<Rightarrow> bool \<times> state" where
  "test_and_clear_bit b s =
     (test_bit b s,
      log (Ev_test_and_clear_bit b)
        (map_vol (\<lambda>v. v\<lparr>backend_state := backend_state v - {b}\<rparr>) s))"

definition clear_bit :: "commit_bit \<Rightarrow> state \<Rightarrow> state" where
  "clear_bit b s =
     log (Ev_clear_bit b) (map_vol (\<lambda>v. v\<lparr>backend_state := backend_state v - {b}\<rparr>) s)"

text \<open>
  Modelled from the spec: \<^verbatim>\<open>WARN_ON(cond)\<close> (include/asm-generic/bug.h). The spec: a
  warning rather than a crash. It prints a warning when the condition holds, and goes on.
\<close>

definition WARN_ON :: "bool \<Rightarrow> state \<Rightarrow> state" where
  "WARN_ON cond s = (if cond then log Ev_WARN s else s)"

text \<open>
  Modelled from the spec: the outcome of an interrupted wait, distinguishable from
  success. In the kernel it is \<^verbatim>\<open>-ERESTARTSYS\<close>, with \<^verbatim>\<open>ERESTARTSYS\<close> 512
  (include/linux/errno.h).
\<close>

definition ERESTARTSYS :: int where
  "ERESTARTSYS = 512"

text \<open>
  A sleep: the other threads run, and a fatal signal sent meanwhile becomes pending.
\<close>

definition sleep :: "wakeup \<Rightarrow> state \<Rightarrow> state" where
  "sleep w s = s\<lparr>vol := others w (vol s), fatal_signal := fatal_signal s \<or> kill w\<rparr>"

text \<open>
  Modelled from the spec: \<^verbatim>\<open>wait_event_killable(wq, condition)\<close> (include/linux/wait.h).
  The spec: block, check the predicate again after every wakeup, until it is true or a
  fatal signal arrives; return success, or an interrupted error. The condition is an
  expression, evaluated again at every check, side effects included:
  \<^verbatim>\<open>
  int __ret = 0;
  if (!(condition))
      for (;;) {
          long __int = prepare_to_wait_event(&wq, &__wait, TASK_KILLABLE);
          if (condition) break;
          if (__int) { __ret = __int; break; }
          schedule();
      }
  __ret;
  \<close>
  where \<^verbatim>\<open>prepare_to_wait_event\<close> returns \<^verbatim>\<open>-ERESTARTSYS\<close> when a fatal signal is pending
  and 0 otherwise.
\<close>

fun wait_event_killable_loop ::
  "(state \<Rightarrow> int \<times> state) \<Rightarrow> wakeup list \<Rightarrow> state \<Rightarrow> int outcome" where
  "wait_event_killable_loop condition [] s =
     (let int = (if fatal_signal s then - ERESTARTSYS else 0) in
      case condition s of (c, s1) \<Rightarrow>
        if c \<noteq> 0 then Returns 0 s1 []
        else if int \<noteq> 0 then Returns int s1 []
        else Blocks s1)"
| "wait_event_killable_loop condition (w # ws) s =
     (let int = (if fatal_signal s then - ERESTARTSYS else 0) in
      case condition s of (c, s1) \<Rightarrow>
        if c \<noteq> 0 then Returns 0 s1 (w # ws)
        else if int \<noteq> 0 then Returns int s1 (w # ws)
        else wait_event_killable_loop condition ws (sleep w s1))"

definition wait_event_killable ::
  "(state \<Rightarrow> int \<times> state) \<Rightarrow> wakeup list \<Rightarrow> state \<Rightarrow> int outcome" where
  "wait_event_killable condition ws s =
     (case condition s of (c, s1) \<Rightarrow>
        if c \<noteq> 0 then Returns 0 s1 ws
        else wait_event_killable_loop condition ws s1)"

text \<open>
  Modelled from the spec: \<^verbatim>\<open>wait_event(wq, condition)\<close> (include/linux/wait.h), the
  spec's wait loop without the way out on a signal. The macro is a statement: line 201
  takes no value from it, and the kernel runs its loop in \<^verbatim>\<open>TASK_UNINTERRUPTIBLE\<close>, so
  no signal ends it. Its one use in this file has a condition that only reads, so
  checking it twice in a row is checking it once.
\<close>

fun wait_event :: "(state \<Rightarrow> bool) \<Rightarrow> wakeup list \<Rightarrow> state \<Rightarrow> unit outcome" where
  "wait_event condition [] s = (if condition s then Returns () s [] else Blocks s)"
| "wait_event condition (w # ws) s =
     (if condition s then Returns () s (w # ws)
      else wait_event condition ws (sleep w s))"

text \<open>
  Modelled from the spec: \<^verbatim>\<open>down_write\<close> and \<^verbatim>\<open>up_write\<close> (include/linux/rwsem.h) on
  \<^verbatim>\<open>sb->delta_lock\<close>. The spec: an exclusive lock, at most one caller proceeds at a
  time. \<^verbatim>\<open>down_write\<close> sleeps, uninterruptibly, until no writer and no reader holds
  the semaphore, and takes it. \<^verbatim>\<open>up_write\<close> gives it back.
\<close>

fun down_write_delta_lock :: "wakeup list \<Rightarrow> state \<Rightarrow> unit outcome" where
  "down_write_delta_lock [] s =
     (if \<not> writer (delta_lock (vol s)) \<and> readers (delta_lock (vol s)) = 0
      then Returns () (map_vol (\<lambda>v. v\<lparr>delta_lock := (delta_lock v)\<lparr>writer := True\<rparr>\<rparr>) s) []
      else Blocks s)"
| "down_write_delta_lock (w # ws) s =
     (if \<not> writer (delta_lock (vol s)) \<and> readers (delta_lock (vol s)) = 0
      then Returns () (map_vol (\<lambda>v. v\<lparr>delta_lock := (delta_lock v)\<lparr>writer := True\<rparr>\<rparr>) s) (w # ws)
      else down_write_delta_lock ws (sleep w s))"

definition up_write_delta_lock :: "state \<Rightarrow> state" where
  "up_write_delta_lock s = map_vol (\<lambda>v. v\<lparr>delta_lock := (delta_lock v)\<lparr>writer := False\<rparr>\<rparr>) s"

text \<open>
  Modelled from the spec: \<^verbatim>\<open>down_read\<close> and \<^verbatim>\<open>up_read\<close> on \<^verbatim>\<open>vfs_sb(sb)->s_umount\<close>, the
  shared side of the same kind of lock. \<^verbatim>\<open>down_read\<close> sleeps until no writer holds the
  semaphore and joins the readers. \<^verbatim>\<open>up_read\<close> leaves them.
\<close>

fun down_read_s_umount :: "wakeup list \<Rightarrow> state \<Rightarrow> unit outcome" where
  "down_read_s_umount [] s =
     (if \<not> writer (s_umount (vol s))
      then Returns ()
        (map_vol (\<lambda>v. v\<lparr>s_umount := (s_umount v)\<lparr>readers := readers (s_umount v) + 1\<rparr>\<rparr>) s) []
      else Blocks s)"
| "down_read_s_umount (w # ws) s =
     (if \<not> writer (s_umount (vol s))
      then Returns ()
        (map_vol (\<lambda>v. v\<lparr>s_umount := (s_umount v)\<lparr>readers := readers (s_umount v) + 1\<rparr>\<rparr>) s) (w # ws)
      else down_read_s_umount ws (sleep w s))"

definition up_read_s_umount :: "state \<Rightarrow> state" where
  "up_read_s_umount s =
     map_vol (\<lambda>v. v\<lparr>s_umount := (s_umount v)\<lparr>readers := readers (s_umount v) - 1\<rparr>\<rparr>) s"

subsection \<open>Calls to the collaborators\<close>

text \<open>A call runs the collaborator on the volume and leaves its event in the trace.\<close>

definition call_delta_get :: "collab \<Rightarrow> state \<Rightarrow> delta_ref \<times> state" where
  "call_delta_get c s =
     (case delta_get c (vol s) of (r, v) \<Rightarrow> (r, log Ev_delta_get (s\<lparr>vol := v\<rparr>)))"

definition call_delta_put :: "collab \<Rightarrow> delta_ref \<Rightarrow> state \<Rightarrow> state" where
  "call_delta_put c r s = log Ev_delta_put (map_vol (delta_put c r) s)"

definition call_delta_transition :: "collab \<Rightarrow> state \<Rightarrow> state" where
  "call_delta_transition c s = log Ev_delta_transition (map_vol (delta_transition c) s)"

definition call_flush_delta :: "collab \<Rightarrow> state \<Rightarrow> int \<times> state" where
  "call_flush_delta c s =
     (case flush_delta c (vol s) of (err, v) \<Rightarrow> (err, log Ev_flush_delta (s\<lparr>vol := v\<rparr>)))"

definition call_sync_inodes_sb :: "collab \<Rightarrow> state \<Rightarrow> state" where
  "call_sync_inodes_sb c s = log Ev_sync_inodes_sb (map_vol (sync_inodes_sb c) s)"

subsection \<open>The sync flusher (lines 7-131)\<close>

text \<open>Lines 34-45.\<close>

definition flush_pending_delta :: "collab \<Rightarrow> state \<Rightarrow> int \<times> state" where
  "flush_pending_delta c s =
     (if \<not> test_bit TUX3_COMMIT_PENDING_BIT s then (0, s)
      else case test_and_clear_bit TUX3_COMMIT_PENDING_BIT s of (old, s1) \<Rightarrow>
        if old then call_flush_delta c s1 else (0, s1))"

text \<open>
  Lines 57-77, and the same text again at lines 145-165 for the async flusher. The
  result is C's truth value, 1 or 0.
\<close>

definition try_delta_transition_until_delta ::
  "collab \<Rightarrow> delta_t \<Rightarrow> state \<Rightarrow> int \<times> state" where
  "try_delta_transition_until_delta c d s =
     (if delta_after_eq (staging_delta (vol s)) d then (1, s)
      else case test_and_set_bit TUX3_COMMIT_RUNNING_BIT s of (old, s1) \<Rightarrow>
        if \<not> old then
          if delta_after_eq (staging_delta (vol s1)) d
          then (1, clear_bit TUX3_COMMIT_RUNNING_BIT s1)
          else let s2 = call_delta_transition c s1
               in (of_bool (delta_after_eq (staging_delta (vol s2)) d), s2)
        else (of_bool (delta_after_eq (staging_delta (vol s1)) d), s1))"

text \<open>Lines 80-84, and 168-172.\<close>

definition wait_for_transition ::
  "collab \<Rightarrow> delta_t \<Rightarrow> wakeup list \<Rightarrow> state \<Rightarrow> int outcome" where
  "wait_for_transition c d ws s =
     wait_event_killable (try_delta_transition_until_delta c d) ws s"

text \<open>Lines 86-95. The value of \<^verbatim>\<open>flush_pending_delta\<close> is dropped at line 92.\<close>

definition try_flush_pending_until_delta ::
  "collab \<Rightarrow> delta_t \<Rightarrow> state \<Rightarrow> int \<times> state" where
  "try_flush_pending_until_delta c d s =
     (let s1 = (if \<not> delta_after_eq (committed_delta (vol s)) d
                then snd (flush_pending_delta c s) else s)
      in (of_bool (delta_after_eq (committed_delta (vol s1)) d), s1))"

text \<open>Lines 97-101.\<close>

definition wait_for_commit ::
  "collab \<Rightarrow> delta_t \<Rightarrow> wakeup list \<Rightarrow> state \<Rightarrow> int outcome" where
  "wait_for_commit c d ws s =
     wait_event_killable (try_flush_pending_until_delta c d) ws s"

text \<open>
  Lines 103-131. \<^verbatim>\<open>UNIFY_DEBUG\<close> is not defined, so \<^verbatim>\<open>unify_flag\<close> is not used. The
  \<^verbatim>\<open>return err\<close> of line 123 comes before the \<^verbatim>\<open>up_write\<close> of line 129.
\<close>

definition sync_current_delta ::
  "collab \<Rightarrow> unify_flags \<Rightarrow> wakeup list \<Rightarrow> state \<Rightarrow> int outcome" where
  "sync_current_delta c unify_flag ws s =
     (case down_write_delta_lock ws s of
        Blocks s' \<Rightarrow> Blocks s'
      | Assert_fails s' \<Rightarrow> Assert_fails s'
      | Returns _ s1 ws1 \<Rightarrow>
          (case call_delta_get c s1 of (ref, s2) \<Rightarrow>
             let d = delta ref; s3 = call_delta_put c ref s2 in
             (case wait_for_transition c d ws1 s3 of
                Blocks s' \<Rightarrow> Blocks s'
              | Assert_fails s' \<Rightarrow> Assert_fails s'
              | Returns err s4 ws4 \<Rightarrow>
                  if err \<noteq> 0 then Returns err s4 ws4
                  else if \<not> delta_after_eq (staging_delta (vol s4)) d then Assert_fails s4
                  else
                    (case wait_for_commit c d ws4 s4 of
                       Blocks s' \<Rightarrow> Blocks s'
                     | Assert_fails s' \<Rightarrow> Assert_fails s'
                     | Returns err s5 ws5 \<Rightarrow>
                         if \<not> (err \<noteq> 0 \<or> delta_after_eq (committed_delta (vol s5)) d)
                         then Assert_fails s5
                         else Returns err (up_write_delta_lock s5) ws5))))"

subsection \<open>The async flusher (lines 133-236)\<close>

text \<open>
  Lines 174-217. \<^verbatim>\<open>wbc\<close> is not used. The value of \<^verbatim>\<open>flush_delta\<close> is stored in
  \<^verbatim>\<open>err\<close> and not read again.
\<close>

definition tux3_writeback :: "collab \<Rightarrow> wakeup list \<Rightarrow> state \<Rightarrow> int outcome" where
  "tux3_writeback c ws s =
     (if \<not> s_flags_MS_ACTIVE (vol s) then Returns 0 s ws
      else
        (case call_delta_get c s of (ref, s1) \<Rightarrow>
           let d = delta ref; s2 = call_delta_put c ref s1 in
           (case wait_for_transition c d ws s2 of
              Blocks s' \<Rightarrow> Blocks s'
            | Assert_fails s' \<Rightarrow> Assert_fails s'
            | Returns err s3 ws3 \<Rightarrow>
                if err \<noteq> 0 then Returns err s3 ws3
                else if \<not> delta_after_eq (staging_delta (vol s3)) d then Assert_fails s3
                else
                  (case wait_event (test_bit TUX3_COMMIT_PENDING_BIT) ws3 s3 of
                     Blocks s' \<Rightarrow> Blocks s'
                   | Assert_fails s' \<Rightarrow> Assert_fails s'
                   | Returns _ s4 ws4 \<Rightarrow>
                       let s5 = (if test_bit TUX3_COMMIT_PENDING_BIT s4
                                 then snd (call_flush_delta c
                                             (clear_bit TUX3_COMMIT_PENDING_BIT s4))
                                 else s4)
                       in Returns 1 (s5\<lparr>nr_pages := 0\<rparr>) ws4))))"

text \<open>Lines 219-228.\<close>

definition async_sync_current_delta ::
  "collab \<Rightarrow> unify_flags \<Rightarrow> wakeup list \<Rightarrow> state \<Rightarrow> int outcome" where
  "async_sync_current_delta c unify_flag ws s =
     (let s0 = WARN_ON (unify_flag = FORCE_UNIFY) s in
      case down_read_s_umount ws s0 of
        Blocks s' \<Rightarrow> Blocks s'
      | Assert_fails s' \<Rightarrow> Assert_fails s'
      | Returns _ s1 ws1 \<Rightarrow>
          Returns 0 (up_read_s_umount (call_sync_inodes_sb c s1)) ws1)"

subsection \<open>The flag elections, one atomic step at a time\<close>

text \<open>
  Between two accesses of one thread to the shared volume, other threads run. For the
  three places where a thread tests a flag of \<^verbatim>\<open>backend_state\<close> and acts on what it
  saw, the code is modelled again as a machine: a program point for each source line
  that reads or writes the volume, and one step for each such line. A call to a
  collaborator is one step.
\<close>

text \<open>\<^verbatim>\<open>flush_pending_delta\<close>: the test of line 38, lines 41 and 42, and \<^verbatim>\<open>out\<close>.\<close>

datatype fpd_pc = FPD_38 | FPD_41 | FPD_42 | FPD_out int

fun fpd_step :: "collab \<Rightarrow> fpd_pc \<Rightarrow> state \<Rightarrow> fpd_pc \<times> state" where
  "fpd_step c FPD_38 s =
     (if \<not> test_bit TUX3_COMMIT_PENDING_BIT s then (FPD_out 0, s) else (FPD_41, s))"
| "fpd_step c FPD_41 s =
     (case test_and_clear_bit TUX3_COMMIT_PENDING_BIT s of (old, s1) \<Rightarrow>
        if old then (FPD_42, s1) else (FPD_out 0, s1))"
| "fpd_step c FPD_42 s = (case call_flush_delta c s of (err, s1) \<Rightarrow> (FPD_out err, s1))"
| "fpd_step c (FPD_out err) s = (FPD_out err, s)"

text \<open>
  \<^verbatim>\<open>tux3_writeback\<close> from the wait of line 201 on: a thread at line 201 stays there
  until it sees the bit set; then the test of line 204, the \<^verbatim>\<open>clear_bit\<close> of line 205,
  the \<^verbatim>\<open>flush_delta\<close> of line 207, and lines 215-216.
\<close>

datatype wb_pc = WB_201 | WB_204 | WB_205 | WB_207 | WB_215 | WB_ret int

fun wb_step :: "collab \<Rightarrow> wb_pc \<Rightarrow> state \<Rightarrow> wb_pc \<times> state" where
  "wb_step c WB_201 s =
     (if test_bit TUX3_COMMIT_PENDING_BIT s then (WB_204, s) else (WB_201, s))"
| "wb_step c WB_204 s =
     (if test_bit TUX3_COMMIT_PENDING_BIT s then (WB_205, s) else (WB_215, s))"
| "wb_step c WB_205 s = (WB_207, clear_bit TUX3_COMMIT_PENDING_BIT s)"
| "wb_step c WB_207 s = (WB_215, snd (call_flush_delta c s))"
| "wb_step c WB_215 s = (WB_ret 1, s\<lparr>nr_pages := 0\<rparr>)"
| "wb_step c (WB_ret r) s = (WB_ret r, s)"

text \<open>
  \<^verbatim>\<open>try_delta_transition_until_delta\<close>: the check of line 63, the \<^verbatim>\<open>test_and_set_bit\<close>
  of line 66, the second check of line 68, the \<^verbatim>\<open>clear_bit\<close> of line 69, the
  \<^verbatim>\<open>delta_transition\<close> of line 73 and the last check of line 76.
\<close>

datatype tdt_pc = TDT_63 | TDT_66 | TDT_68 | TDT_69 | TDT_73 | TDT_76 | TDT_ret int

fun tdt_step :: "collab \<Rightarrow> delta_t \<Rightarrow> tdt_pc \<Rightarrow> state \<Rightarrow> tdt_pc \<times> state" where
  "tdt_step c d TDT_63 s =
     (if delta_after_eq (staging_delta (vol s)) d then (TDT_ret 1, s) else (TDT_66, s))"
| "tdt_step c d TDT_66 s =
     (case test_and_set_bit TUX3_COMMIT_RUNNING_BIT s of (old, s1) \<Rightarrow>
        if \<not> old then (TDT_68, s1) else (TDT_76, s1))"
| "tdt_step c d TDT_68 s =
     (if delta_after_eq (staging_delta (vol s)) d then (TDT_69, s) else (TDT_73, s))"
| "tdt_step c d TDT_69 s = (TDT_ret 1, clear_bit TUX3_COMMIT_RUNNING_BIT s)"
| "tdt_step c d TDT_73 s = (TDT_76, call_delta_transition c s)"
| "tdt_step c d TDT_76 s =
     (TDT_ret (of_bool (delta_after_eq (staging_delta (vol s)) d)), s)"
| "tdt_step c d (TDT_ret r) s = (TDT_ret r, s)"

text \<open>
  Threads running the same code, interleaved: the schedule names the thread that takes
  the next step.
\<close>

fun run_threads ::
  "('pc \<Rightarrow> state \<Rightarrow> 'pc \<times> state) \<Rightarrow> nat list \<Rightarrow> 'pc list \<times> state \<Rightarrow> 'pc list \<times> state" where
  "run_threads step [] cfg = cfg"
| "run_threads step (i # sched) (pcs, s) =
     (if i < length pcs
      then (case step (pcs ! i) s of (pc', s') \<Rightarrow> run_threads step sched (pcs[i := pc'], s'))
      else run_threads step sched (pcs, s))"

text \<open>
  One thread among others whose code is not known: after each of its steps the others
  change the volume as the next element of the list says.
\<close>

fun run_interfered ::
  "('pc \<Rightarrow> state \<Rightarrow> 'pc \<times> state) \<Rightarrow> (sb \<Rightarrow> sb) list \<Rightarrow> 'pc \<times> state \<Rightarrow> 'pc \<times> state" where
  "run_interfered step [] cfg = cfg"
| "run_interfered step (e # es) (pc, s) =
     (case step pc s of (pc', s') \<Rightarrow> run_interfered step es (pc', map_vol e s'))"

text \<open>How often \<^verbatim>\<open>flush_delta\<close> has been called.\<close>

definition flush_calls :: "state \<Rightarrow> nat" where
  "flush_calls s = count_list (trace s) Ev_flush_delta"

subsection \<open>Concrete collaborators and states\<close>

text \<open>
  Modelled from the spec: fs/tux3/commit.c is not among the sources; these collaborators
  serve to run the model on concrete inputs. \<open>advance_transition\<close> advances
  \<open>staging_delta\<close> to the next epoch, marks the sealed epoch pending for commit and
  clears \<open>TRANSITION_RUNNING\<close>; the flush advances \<open>committed_delta\<close>; a reference is
  taken on the open epoch, here the one after \<open>staging_delta\<close>, and dropping it changes
  nothing while other references remain.
\<close>

definition spec_delta_transition :: "sb \<Rightarrow> sb" where
  "spec_delta_transition v =
     v\<lparr>staging_delta := staging_delta v + 1,
       backend_state := insert TUX3_COMMIT_PENDING_BIT
                          (backend_state v - {TUX3_COMMIT_RUNNING_BIT})\<rparr>"

definition spec_flush_delta :: "sb \<Rightarrow> int \<times> sb" where
  "spec_flush_delta v = (0, v\<lparr>committed_delta := committed_delta v + 1\<rparr>)"

definition spec_collab :: collab where
  "spec_collab =
     \<lparr>delta_get = (\<lambda>v. (\<lparr>delta = staging_delta v + 1\<rparr>, v)),
      delta_put = (\<lambda>r v. v),
      delta_transition = spec_delta_transition,
      flush_delta = spec_flush_delta,
      sync_inodes_sb = (\<lambda>v. v)\<rparr>"

text \<open>A free semaphore, and a volume at epoch 0 with nothing pending.\<close>

definition rwsem_free :: rwsem where
  "rwsem_free = \<lparr>writer = False, readers = 0\<rparr>"

definition sb0 :: sb where
  "sb0 =
     \<lparr>staging_delta = 0, committed_delta = 0, backend_state = {},
      delta_lock = rwsem_free, s_flags_MS_ACTIVE = True, s_umount = rwsem_free\<rparr>"

definition state0 :: state where
  "state0 = \<lparr>vol = sb0, fatal_signal = False, nr_pages = 7, trace = []\<rparr>"

text \<open>
  A thread for which a fatal signal is pending, on a volume where another thread holds
  \<^verbatim>\<open>TUX3_COMMIT_RUNNING_BIT\<close>; a sleep during which nothing happens but a fatal signal;
  and a collaborator whose current delta has been staged already.
\<close>

definition state_killed :: state where
  "state_killed =
     state0\<lparr>vol := sb0\<lparr>backend_state := {TUX3_COMMIT_RUNNING_BIT}\<rparr>, fatal_signal := True\<rparr>"

definition kill_wakeup :: wakeup where
  "kill_wakeup = \<lparr>others = (\<lambda>v. v), kill = True\<rparr>"

definition staged_collab :: collab where
  "staged_collab = spec_collab\<lparr>delta_get := (\<lambda>v. (\<lparr>delta = staging_delta v\<rparr>, v))\<rparr>"

text \<open>
  A collaborator whose transition seals a delta that writers still hold: it advances
  \<open>staging_delta\<close> and gives up \<^verbatim>\<open>TUX3_COMMIT_RUNNING_BIT\<close>, and the delta is not pending
  for commit before the last of them drops its reference.
\<close>

definition busy_collab :: collab where
  "busy_collab =
     spec_collab\<lparr>delta_transition :=
       (\<lambda>v. v\<lparr>staging_delta := staging_delta v + 1,
              backend_state := backend_state v - {TUX3_COMMIT_RUNNING_BIT}\<rparr>)\<rparr>"

text \<open>
  A collaborator whose flush fails with \<^verbatim>\<open>-EIO\<close> (include/uapi/asm-generic/errno-base.h)
  after it has advanced \<open>committed_delta\<close>.
\<close>

definition EIO :: int where
  "EIO = 5"

definition eio_collab :: collab where
  "eio_collab =
     spec_collab\<lparr>flush_delta := (\<lambda>v. (- EIO, v\<lparr>committed_delta := committed_delta v + 1\<rparr>))\<rparr>"

text \<open>
  The state \<open>state_killed\<close> with \<^verbatim>\<open>delta_lock\<close> held by a writer, after a reference was
  taken and dropped and \<^verbatim>\<open>TUX3_COMMIT_RUNNING_BIT\<close> was tested twice.
\<close>

definition state_leaked :: state where
  "state_leaked =
     state_killed\<lparr>vol := (vol state_killed)\<lparr>delta_lock := \<lparr>writer = True, readers = 0\<rparr>\<rparr>,
       trace := [Ev_delta_get, Ev_delta_put,
         Ev_test_and_set_bit TUX3_COMMIT_RUNNING_BIT,
         Ev_test_and_set_bit TUX3_COMMIT_RUNNING_BIT]\<rparr>"

text \<open>A volume on which a sealed delta is pending for commit.\<close>

definition state_pending :: state where
  "state_pending = state0\<lparr>vol := sb0\<lparr>backend_state := {TUX3_COMMIT_PENDING_BIT}\<rparr>\<rparr>"

subsection \<open>Counting for the election of the flusher\<close>

text \<open>
  The threads of \<^verbatim>\<open>flush_pending_delta\<close> that stand before the call of line 42, and the
  flag as a number. Their sum with \<open>flush_calls\<close> never grows.
\<close>

definition flushing :: "fpd_pc list \<Rightarrow> nat" where
  "flushing pcs = length (filter (\<lambda>pc. pc = FPD_42) pcs)"

definition pending :: "state \<Rightarrow> nat" where
  "pending s = (if test_bit TUX3_COMMIT_PENDING_BIT s then 1 else 0)"

text \<open>
  Since the run began with \<open>K\<close> calls made: the flag is still set and no thread has gone
  past line 41, or a thread stands before the call, or the call has been made.
\<close>

definition fpd_progress :: "nat \<Rightarrow> fpd_pc list \<Rightarrow> state \<Rightarrow> bool" where
  "fpd_progress K pcs s \<longleftrightarrow>
     K \<le> flush_calls s \<and>
     ((test_bit TUX3_COMMIT_PENDING_BIT s \<and> (\<forall>pc \<in> set pcs. pc = FPD_38 \<or> pc = FPD_41)) \<or>
      (\<exists>j < length pcs. pcs ! j = FPD_42) \<or>
      K + 1 \<le> flush_calls s)"

section \<open>Properties\<close>

subsection \<open>Epoch comparison\<close>

lemma sint_nonneg_iff: "0 \<le> sint (w :: delta_t) \<longleftrightarrow> unat w < 2 ^ 31"
proof -
  have "unat w < 2 ^ 32" using unsigned_less [of w, where 'a = nat] by simp
  then have lt: "unat w div 2 ^ 31 < 2" by simp
  have "0 \<le> sint w \<longleftrightarrow> \<not> bit w 31"
    by (simp add: sint_uint bit_uint_iff)
  also have "bit w 31 \<longleftrightarrow> bit (unat w) 31"
    by (simp add: bit_unsigned_iff)
  also have "\<dots> \<longleftrightarrow> odd (unat w div 2 ^ 31)"
    by (simp only: bit_iff_odd)
  also have "\<dots> \<longleftrightarrow> \<not> unat w < 2 ^ 31"
    using lt by (cases "unat w < 2 ^ 31") (auto elim!: oddE)
  finally show ?thesis by simp
qed

lemma delta_after_eq_unat: "delta_after_eq a b \<longleftrightarrow> unat (a - b) < 2 ^ 31"
  by (simp add: delta_after_eq_def sint_nonneg_iff)

lemma unat_neg_delta: "(w :: delta_t) \<noteq> 0 \<Longrightarrow> unat (- w) = 2 ^ 32 - unat w"
  using unat_sub_if_size [of 0 w] by (simp add: word_size unat_gt_0 Let_def split: if_splits)

lemma delta_after_eq_ahead:
  assumes "k < HALF_RANGE"
  shows "delta_after_eq (b + of_nat k) b"
    and "delta_after_eq b (b + of_nat k) \<longleftrightarrow> k = 0"
proof -
  from assms have k: "unat (of_nat k :: delta_t) = k"
    by (simp add: HALF_RANGE_def unat_of_nat)
  show "delta_after_eq (b + of_nat k) b"
    using assms k by (simp add: delta_after_eq_unat HALF_RANGE_def)
  show "delta_after_eq b (b + of_nat k) \<longleftrightarrow> k = 0"
  proof (cases "k = 0")
    case True
    then show ?thesis by (simp add: delta_after_eq_unat)
  next
    case False
    with k have nz: "(of_nat k :: delta_t) \<noteq> 0"
      by (metis unat_0)
    have "unat (b - (b + of_nat k)) = 2 ^ 32 - k"
      using unat_neg_delta [OF nz] k by simp
    with assms False show ?thesis
      by (simp add: delta_after_eq_unat HALF_RANGE_def)
  qed
qed

lemma delta_after_eq_window:
  assumes i: "i < HALF_RANGE" and j: "j < HALF_RANGE"
  shows "delta_after_eq (b + of_nat i) (b + of_nat j) \<longleftrightarrow> j \<le> i"
proof (cases "j \<le> i")
  case True
  then have "(b + of_nat i) = (b + of_nat j) + of_nat (i - j)"
    by (simp flip: of_nat_add)
  moreover from i have "i - j < HALF_RANGE" by simp
  ultimately show ?thesis
    using True delta_after_eq_ahead(1) [of "i - j" "b + of_nat j"] by simp
next
  case False
  then have "(b + of_nat j) = (b + of_nat i) + of_nat (j - i)"
    by (simp flip: of_nat_add)
  moreover from j have "j - i < HALF_RANGE" by simp
  ultimately show ?thesis
    using False delta_after_eq_ahead(2) [of "j - i" "b + of_nat i"] by simp
qed

text \<open>
  Claim C3. \<open>delta_after_eq a b\<close> is the signed reading of the unsigned difference
  \<open>a - b\<close> being \<open>\<ge> 0\<close>. It is reflexive, and for every epoch \<open>b\<close> and every distance
  \<open>k\<close> with \<open>0 \<le> k < HALF_RANGE\<close>, also where \<open>b + k\<close> wraps around: \<open>b + k\<close> is after
  or equal to \<open>b\<close>, and \<open>b\<close> is after or equal to \<open>b + k\<close> only if \<open>k = 0\<close>. It is a total
  order under wrap-around in this sense: on the epochs less than half the range ahead of
  any \<open>b\<close>, it is the order of their distances from \<open>b\<close>.
\<close>

theorem delta_after_eq_wraparound:
  "delta_after_eq a b = (0 \<le> sint (a - b)) \<and>
   delta_after_eq a a \<and>
   (\<forall>b k. k < HALF_RANGE \<longrightarrow>
      delta_after_eq (b + of_nat k) b \<and> (delta_after_eq b (b + of_nat k) \<longleftrightarrow> k = 0)) \<and>
   (\<forall>b i j. i < HALF_RANGE \<and> j < HALF_RANGE \<longrightarrow>
      (delta_after_eq (b + of_nat i) (b + of_nat j) \<longleftrightarrow> j \<le> i))"
  using delta_after_eq_ahead delta_after_eq_window by (simp add: delta_after_eq_def)

text \<open>Five epochs ahead of \<open>2\<^sup>3\<^sup>2 - 2\<close> is epoch 3, across the wrap-around.\<close>

theorem delta_after_eq_wraparound_witness:
  "(5::nat) < HALF_RANGE \<and> (1::nat) < HALF_RANGE \<and>
   delta_after_eq (4294967294 + of_nat 5) 4294967294 \<and>
   \<not> delta_after_eq 4294967294 (4294967294 + of_nat 5) \<and>
   (4294967294 + of_nat 5 :: delta_t) = 3 \<and>
   delta_after_eq (4294967294 + of_nat 5) (4294967294 + of_nat 1) \<and>
   \<not> delta_after_eq (4294967294 + of_nat 1) (4294967294 + of_nat 5) \<and>
   (4294967294 + of_nat 1 :: delta_t) = 4294967295"
proof -
  have h: "(5::nat) < HALF_RANGE" "(1::nat) < HALF_RANGE" by (simp_all add: HALF_RANGE_def)
  note w = delta_after_eq_wraparound [of 0 0]
  from w h
  have "delta_after_eq (4294967294 + of_nat 5) 4294967294 \<and>
    (delta_after_eq 4294967294 (4294967294 + of_nat 5) \<longleftrightarrow> (5::nat) = 0)"
    by blast
  moreover from w h
  have "(delta_after_eq (4294967294 + of_nat 5) (4294967294 + of_nat 1) \<longleftrightarrow> (1::nat) \<le> 5) \<and>
    (delta_after_eq (4294967294 + of_nat 1) (4294967294 + of_nat 5) \<longleftrightarrow> (5::nat) \<le> 1)"
    by blast
  ultimately show ?thesis using h by simp
qed

text \<open>
  The bound on the distance is part of the claim and is needed: of two epochs exactly
  half the range apart, neither is after or equal to the other.
\<close>

lemma delta_after_eq_half_range_apart:
  "\<not> delta_after_eq (b + 2147483648) b \<and> \<not> delta_after_eq b (b + 2147483648)"
  by (simp add: delta_after_eq_unat)

subsection \<open>The conditions of the two waits\<close>

lemma try_delta_transition_until_delta_result:
  assumes "try_delta_transition_until_delta c d s = (r, s')"
  shows "(r \<noteq> 0 \<longleftrightarrow> delta_after_eq (staging_delta (vol s')) d)"
    and "fatal_signal s' = fatal_signal s"
  using assms
  by (auto simp: try_delta_transition_until_delta_def test_and_set_bit_def clear_bit_def
      call_delta_transition_def log_def map_vol_def Let_def split: if_splits)

lemma flush_pending_delta_signal:
  "fatal_signal (snd (flush_pending_delta c s)) = fatal_signal s"
  by (auto simp: flush_pending_delta_def test_and_clear_bit_def call_flush_delta_def
      log_def map_vol_def split: prod.splits)

lemma try_flush_pending_until_delta_result:
  assumes "try_flush_pending_until_delta c d s = (r, s')"
  shows "(r \<noteq> 0 \<longleftrightarrow> delta_after_eq (committed_delta (vol s')) d)"
    and "fatal_signal s' = fatal_signal s"
  using assms
  by (auto simp: try_flush_pending_until_delta_def Let_def flush_pending_delta_signal
      split: if_splits)

lemma wait_event_killable_loop_returns:
  assumes cond: "\<And>s r s'. condition s = (r, s') \<Longrightarrow> (r \<noteq> 0 \<longleftrightarrow> Q s') \<and> fatal_signal s' = fatal_signal s"
    and ret: "wait_event_killable_loop condition ws s = Returns r s' ws'"
  shows "(r = 0 \<and> Q s') \<or> (r = - ERESTARTSYS \<and> \<not> Q s' \<and> fatal_signal s')"
  using ret
proof (induction ws arbitrary: s)
  case Nil
  obtain c s1 where c: "condition s = (c, s1)" by (cases "condition s")
  from cond [OF c] Nil c show ?case
    by (auto simp: Let_def ERESTARTSYS_def split: if_splits)
next
  case (Cons w ws)
  obtain c s1 where c: "condition s = (c, s1)" by (cases "condition s")
  show ?case
  proof (cases "c \<noteq> 0 \<or> fatal_signal s")
    case True
    with cond [OF c] Cons.prems c show ?thesis
      by (auto simp: Let_def ERESTARTSYS_def split: if_splits)
  next
    case False
    with Cons.prems c have "wait_event_killable_loop condition ws (sleep w s1) = Returns r s' ws'"
      by (simp add: Let_def)
    then show ?thesis by (rule Cons.IH)
  qed
qed

lemma wait_event_killable_returns:
  assumes cond: "\<And>s r s'. condition s = (r, s') \<Longrightarrow> (r \<noteq> 0 \<longleftrightarrow> Q s') \<and> fatal_signal s' = fatal_signal s"
    and ret: "wait_event_killable condition ws s = Returns r s' ws'"
  shows "(r = 0 \<and> Q s') \<or> (r = - ERESTARTSYS \<and> \<not> Q s' \<and> fatal_signal s')"
proof -
  obtain c s1 where c: "condition s = (c, s1)" by (cases "condition s")
  show ?thesis
  proof (cases "c \<noteq> 0")
    case True
    with cond [OF c] ret c show ?thesis
      by (auto simp: wait_event_killable_def)
  next
    case False
    with ret c have "wait_event_killable_loop condition ws s1 = Returns r s' ws'"
      by (simp add: wait_event_killable_def)
    with cond show ?thesis by (rule wait_event_killable_loop_returns)
  qed
qed

lemma wait_event_killable_loop_no_assert:
  "wait_event_killable_loop condition ws s \<noteq> Assert_fails s'"
  by (induction ws arbitrary: s) (auto simp: Let_def split: prod.splits)

lemma wait_event_killable_no_assert:
  "wait_event_killable condition ws s \<noteq> Assert_fails s'"
  by (auto simp: wait_event_killable_def wait_event_killable_loop_no_assert split: prod.splits)

lemma wait_event_killable_loop_blocks:
  assumes cond: "\<And>s r s'. condition s = (r, s') \<Longrightarrow> fatal_signal s' = fatal_signal s"
    and blk: "wait_event_killable_loop condition ws s = Blocks s'"
  shows "\<not> fatal_signal s \<and> (\<forall>w \<in> set ws. \<not> kill w)"
  using blk
proof (induction ws arbitrary: s)
  case Nil
  obtain c s1 where c: "condition s = (c, s1)" by (cases "condition s")
  from Nil c show ?case
    by (auto simp: Let_def ERESTARTSYS_def split: if_splits)
next
  case (Cons w ws)
  obtain c s1 where c: "condition s = (c, s1)" by (cases "condition s")
  from Cons.prems c have ns: "\<not> fatal_signal s" and c0: "c = 0"
    by (auto simp: Let_def ERESTARTSYS_def split: if_splits)
  with Cons.prems c have "wait_event_killable_loop condition ws (sleep w s1) = Blocks s'"
    by (simp add: Let_def)
  then have "\<not> fatal_signal (sleep w s1) \<and> (\<forall>w \<in> set ws. \<not> kill w)" by (rule Cons.IH)
  with ns show ?case by (simp add: sleep_def)
qed

lemma wait_event_killable_blocks:
  assumes cond: "\<And>s r s'. condition s = (r, s') \<Longrightarrow> fatal_signal s' = fatal_signal s"
    and blk: "wait_event_killable condition ws s = Blocks s'"
  shows "\<not> fatal_signal s \<and> (\<forall>w \<in> set ws. \<not> kill w)"
proof -
  obtain c s1 where c: "condition s = (c, s1)" by (cases "condition s")
  with blk have "wait_event_killable_loop condition ws s1 = Blocks s'"
    by (auto simp: wait_event_killable_def split: if_splits)
  with cond have "\<not> fatal_signal s1 \<and> (\<forall>w \<in> set ws. \<not> kill w)"
    by (rule wait_event_killable_loop_blocks)
  with cond [OF c] show ?thesis by simp
qed

subsection \<open>The two waits\<close>

lemma wait_for_transition_no_assert: "wait_for_transition c d ws s \<noteq> Assert_fails s'"
  by (simp add: wait_for_transition_def wait_event_killable_no_assert)

lemma wait_for_commit_no_assert: "wait_for_commit c d ws s \<noteq> Assert_fails s'"
  by (simp add: wait_for_commit_def wait_event_killable_no_assert)

lemma wait_for_transition_returns:
  assumes "wait_for_transition c d ws s = Returns r s' ws'"
  shows "(r = 0 \<and> delta_after_eq (staging_delta (vol s')) d) \<or>
         (r = - ERESTARTSYS \<and> \<not> delta_after_eq (staging_delta (vol s')) d \<and> fatal_signal s')"
  using assms unfolding wait_for_transition_def
  by (rule wait_event_killable_returns [rotated])
     (simp add: try_delta_transition_until_delta_result)

lemma wait_for_commit_returns:
  assumes "wait_for_commit c d ws s = Returns r s' ws'"
  shows "(r = 0 \<and> delta_after_eq (committed_delta (vol s')) d) \<or>
         (r = - ERESTARTSYS \<and> \<not> delta_after_eq (committed_delta (vol s')) d \<and> fatal_signal s')"
  using assms unfolding wait_for_commit_def
  by (rule wait_event_killable_returns [rotated])
     (simp add: try_flush_pending_until_delta_result)

lemma wait_for_transition_killed:
  assumes "fatal_signal s \<or> (\<exists>w \<in> set ws. kill w)"
  shows "\<exists>r s' ws'. wait_for_transition c d ws s = Returns r s' ws'"
proof (cases "wait_for_transition c d ws s")
  case (Returns r s' ws')
  then show ?thesis by simp
next
  case (Blocks s')
  then have "wait_event_killable (try_delta_transition_until_delta c d) ws s = Blocks s'"
    by (simp add: wait_for_transition_def)
  then have "\<not> fatal_signal s \<and> (\<forall>w \<in> set ws. \<not> kill w)"
    by (rule wait_event_killable_blocks [rotated])
       (simp add: try_delta_transition_until_delta_result)
  with assms show ?thesis by blast
next
  case (Assert_fails s')
  then show ?thesis by (simp add: wait_for_transition_no_assert)
qed

lemma wait_for_commit_killed:
  assumes "fatal_signal s \<or> (\<exists>w \<in> set ws. kill w)"
  shows "\<exists>r s' ws'. wait_for_commit c d ws s = Returns r s' ws'"
proof (cases "wait_for_commit c d ws s")
  case (Returns r s' ws')
  then show ?thesis by simp
next
  case (Blocks s')
  then have "wait_event_killable (try_flush_pending_until_delta c d) ws s = Blocks s'"
    by (simp add: wait_for_commit_def)
  then have "\<not> fatal_signal s \<and> (\<forall>w \<in> set ws. \<not> kill w)"
    by (rule wait_event_killable_blocks [rotated])
       (simp add: try_flush_pending_until_delta_result)
  with assms show ?thesis by blast
next
  case (Assert_fails s')
  then show ?thesis by (simp add: wait_for_commit_no_assert)
qed

text \<open>
  Claim C7. When \<^verbatim>\<open>wait_for_transition(sb, D)\<close> returns 0, \<open>staging_delta\<close> is after or
  equal to \<open>D\<close> in the state it returns in; its only other value is \<^verbatim>\<open>-ERESTARTSYS\<close>,
  which is not 0 and is returned with the predicate false and a fatal signal pending.
  Once a fatal signal is pending for the caller, on entry or sent during a sleep, the
  wait does return.
\<close>

theorem wait_for_transition_correct:
  "(wait_for_transition c d ws s = Returns r s' ws' \<longrightarrow>
      (r = 0 \<and> delta_after_eq (staging_delta (vol s')) d) \<or>
      (r = - ERESTARTSYS \<and> r \<noteq> 0 \<and> \<not> delta_after_eq (staging_delta (vol s')) d \<and>
       fatal_signal s')) \<and>
   (fatal_signal s \<or> (\<exists>w \<in> set ws. kill w) \<longrightarrow>
      (\<exists>r s' ws'. wait_for_transition c d ws s = Returns r s' ws'))"
  using wait_for_transition_returns [of c d ws s r s' ws'] wait_for_transition_killed [of s ws c d]
  by (auto simp: ERESTARTSYS_def)

lemma wft_killed_eval:
  "wait_for_transition spec_collab 1 [] state_killed =
     Returns (- 512)
       (state_killed\<lparr>trace := [Ev_test_and_set_bit TUX3_COMMIT_RUNNING_BIT,
                                Ev_test_and_set_bit TUX3_COMMIT_RUNNING_BIT]\<rparr>) []"
  by (simp add: wait_for_transition_def wait_event_killable_def
      try_delta_transition_until_delta_def state_killed_def state0_def sb0_def
      test_and_set_bit_def test_bit_def log_def map_vol_def delta_after_eq_def ERESTARTSYS_def
      Let_def)

lemma wft_ok_eval:
  "wait_for_transition spec_collab 1 [] state0 =
     Returns 0
       (state0\<lparr>vol := sb0\<lparr>staging_delta := 1, backend_state := {TUX3_COMMIT_PENDING_BIT}\<rparr>,
               trace := [Ev_test_and_set_bit TUX3_COMMIT_RUNNING_BIT, Ev_delta_transition]\<rparr>) []"
  by (simp add: wait_for_transition_def wait_event_killable_def
      try_delta_transition_until_delta_def state0_def sb0_def spec_collab_def
      spec_delta_transition_def call_delta_transition_def
      test_and_set_bit_def test_bit_def log_def map_vol_def delta_after_eq_def ERESTARTSYS_def
      Let_def)


text \<open>
  A killed caller that cannot run the transition gets \<^verbatim>\<open>-ERESTARTSYS\<close>; a caller on a
  quiet volume runs the transition itself and gets 0.
\<close>

theorem wait_for_transition_correct_witness:
  "fatal_signal state_killed \<and>
   wait_for_transition spec_collab 1 [] state_killed =
     Returns (- ERESTARTSYS)
       (state_killed\<lparr>trace := [Ev_test_and_set_bit TUX3_COMMIT_RUNNING_BIT,
                                Ev_test_and_set_bit TUX3_COMMIT_RUNNING_BIT]\<rparr>) [] \<and>
   \<not> delta_after_eq (staging_delta (vol state_killed)) 1 \<and>
   wait_for_transition spec_collab 1 [] state0 =
     Returns 0
       (state0\<lparr>vol := sb0\<lparr>staging_delta := 1, backend_state := {TUX3_COMMIT_PENDING_BIT}\<rparr>,
               trace := [Ev_test_and_set_bit TUX3_COMMIT_RUNNING_BIT, Ev_delta_transition]\<rparr>) [] \<and>
   delta_after_eq 1 1"
proof -
  have k: "fatal_signal state_killed" by (simp add: state_killed_def)
  from wait_for_transition_correct [of spec_collab 1 "[]" state_killed "- 512"
      "state_killed\<lparr>trace := [Ev_test_and_set_bit TUX3_COMMIT_RUNNING_BIT,
                               Ev_test_and_set_bit TUX3_COMMIT_RUNNING_BIT]\<rparr>" "[]"]
    wft_killed_eval
  have a: "\<not> delta_after_eq (staging_delta (vol state_killed)) 1"
    by simp
  from wait_for_transition_correct [of spec_collab 1 "[]" state0 0
      "state0\<lparr>vol := sb0\<lparr>staging_delta := 1, backend_state := {TUX3_COMMIT_PENDING_BIT}\<rparr>,
              trace := [Ev_test_and_set_bit TUX3_COMMIT_RUNNING_BIT, Ev_delta_transition]\<rparr>" "[]"]
    wft_ok_eval
  have b: "delta_after_eq 1 1"
    by simp
  from k a b wft_killed_eval wft_ok_eval show ?thesis
    by (simp add: ERESTARTSYS_def)
qed

subsection \<open>Which waits a fatal signal ends\<close>

lemma wait_event_returns:
  "wait_event condition ws s = Returns u s' ws' \<Longrightarrow> condition s'"
  by (induction ws arbitrary: s) (auto split: if_splits)

lemma wait_event_no_assert: "wait_event condition ws s \<noteq> Assert_fails s'"
  by (induction ws arbitrary: s) auto

lemma wait_event_pending_blocks:
  assumes "\<forall>w \<in> set ws. \<forall>v. TUX3_COMMIT_PENDING_BIT \<notin> backend_state v \<longrightarrow>
             TUX3_COMMIT_PENDING_BIT \<notin> backend_state (others w v)"
    and "\<not> test_bit TUX3_COMMIT_PENDING_BIT s"
  shows "\<exists>s'. wait_event (test_bit TUX3_COMMIT_PENDING_BIT) ws s = Blocks s'"
  using assms
proof (induction ws arbitrary: s)
  case Nil
  then show ?case by simp
next
  case (Cons w ws)
  from Cons.prems have "\<not> test_bit TUX3_COMMIT_PENDING_BIT (sleep w s)"
    by (simp add: test_bit_def sleep_def)
  with Cons.prems Cons.IH [of "sleep w s"] show ?case by simp
qed

lemma tux3_writeback_propagates:
  assumes "s_flags_MS_ACTIVE (vol s)"
    and "call_delta_get c s = (ref, s1)"
    and "wait_for_transition c (delta ref) ws (call_delta_put c ref s1) = Returns r s3 ws3"
    and "r \<noteq> 0"
  shows "tux3_writeback c ws s = Returns r s3 ws3"
  using assms by (simp add: tux3_writeback_def Let_def)

text \<open>
  Claim C6, amended. \<^verbatim>\<open>wait_for_transition\<close> and \<^verbatim>\<open>wait_for_commit\<close> can be
  interrupted: once a fatal signal is pending for the caller they return, with 0 if
  their predicate holds by then and with the non-zero \<^verbatim>\<open>-ERESTARTSYS\<close> otherwise, and
  \<^verbatim>\<open>tux3_writeback\<close> returns the non-zero value of its \<^verbatim>\<open>wait_for_transition\<close>. The
  wait for \<^verbatim>\<open>TUX3_COMMIT_PENDING_BIT\<close> at line 201 of \<^verbatim>\<open>tux3_writeback\<close> is a
  \<^verbatim>\<open>wait_event\<close>: it ends only with the bit set, and while the bit stays clear it
  stays asleep, signal or not.
\<close>

theorem killable_waits:
  "- ERESTARTSYS \<noteq> 0 \<and>
   (fatal_signal s \<or> (\<exists>w \<in> set ws. kill w) \<longrightarrow>
      (\<exists>r s' ws'. wait_for_transition c d ws s = Returns r s' ws' \<and>
         (r = 0 \<and> delta_after_eq (staging_delta (vol s')) d \<or>
          r = - ERESTARTSYS \<and> \<not> delta_after_eq (staging_delta (vol s')) d)) \<and>
      (\<exists>r s' ws'. wait_for_commit c d ws s = Returns r s' ws' \<and>
         (r = 0 \<and> delta_after_eq (committed_delta (vol s')) d \<or>
          r = - ERESTARTSYS \<and> \<not> delta_after_eq (committed_delta (vol s')) d))) \<and>
   (s_flags_MS_ACTIVE (vol s) \<and> call_delta_get c s = (ref, s1) \<and>
    wait_for_transition c (delta ref) ws (call_delta_put c ref s1) = Returns r s3 ws3 \<and>
    r \<noteq> 0 \<longrightarrow> tux3_writeback c ws s = Returns r s3 ws3) \<and>
   (wait_event (test_bit TUX3_COMMIT_PENDING_BIT) ws s = Returns u s4 ws4 \<longrightarrow>
      test_bit TUX3_COMMIT_PENDING_BIT s4) \<and>
   ((\<forall>w \<in> set ws. \<forall>v. TUX3_COMMIT_PENDING_BIT \<notin> backend_state v \<longrightarrow>
        TUX3_COMMIT_PENDING_BIT \<notin> backend_state (others w v)) \<and>
    \<not> test_bit TUX3_COMMIT_PENDING_BIT s \<longrightarrow>
      (\<exists>s'. wait_event (test_bit TUX3_COMMIT_PENDING_BIT) ws s = Blocks s'))"
proof -
  have e: "- ERESTARTSYS \<noteq> 0" by (simp add: ERESTARTSYS_def)
  have t: "\<exists>r s' ws'. wait_for_transition c d ws s = Returns r s' ws' \<and>
         (r = 0 \<and> delta_after_eq (staging_delta (vol s')) d \<or>
          r = - ERESTARTSYS \<and> \<not> delta_after_eq (staging_delta (vol s')) d)"
    if "fatal_signal s \<or> (\<exists>w \<in> set ws. kill w)"
    using wait_for_transition_killed [OF that, of c d] wait_for_transition_returns by blast
  have f: "\<exists>r s' ws'. wait_for_commit c d ws s = Returns r s' ws' \<and>
         (r = 0 \<and> delta_after_eq (committed_delta (vol s')) d \<or>
          r = - ERESTARTSYS \<and> \<not> delta_after_eq (committed_delta (vol s')) d)"
    if "fatal_signal s \<or> (\<exists>w \<in> set ws. kill w)"
    using wait_for_commit_killed [OF that, of c d] wait_for_commit_returns by blast
  from e t f tux3_writeback_propagates [of s c ref s1 ws r s3 ws3]
    wait_event_returns [of "test_bit TUX3_COMMIT_PENDING_BIT" ws s u s4 ws4]
    wait_event_pending_blocks [of ws s]
  show ?thesis by blast
qed


text \<open>The definitions to unfold when the model is run on a concrete input.\<close>

lemmas eval_defs =
  wait_for_transition_def wait_for_commit_def wait_event_killable_def
  try_delta_transition_until_delta_def try_flush_pending_until_delta_def
  flush_pending_delta_def tux3_writeback_def sync_current_delta_def
  async_sync_current_delta_def
  call_delta_get_def call_delta_put_def call_delta_transition_def call_flush_delta_def
  call_sync_inodes_sb_def
  test_and_set_bit_def test_and_clear_bit_def clear_bit_def test_bit_def WARN_ON_def
  up_write_delta_lock_def up_read_s_umount_def sleep_def
  log_def map_vol_def delta_after_eq_def ERESTARTSYS_def Let_def
  spec_collab_def spec_delta_transition_def spec_flush_delta_def staged_collab_def
  kill_wakeup_def state_killed_def state0_def sb0_def rwsem_free_def

text \<open>
  Claim C6, as stated, fails for the wait of line 201: the pass runs the transition, and
  with writers still holding the sealed delta nothing is pending, so \<^verbatim>\<open>tux3_writeback\<close>
  sleeps in \<^verbatim>\<open>wait_event\<close>; two fatal signals later it is still asleep and has returned
  nothing.
\<close>

theorem tux3_writeback_wait_not_killable:
  "tux3_writeback busy_collab [kill_wakeup, kill_wakeup] state0 =
     Blocks
       (state0\<lparr>vol := sb0\<lparr>staging_delta := 1\<rparr>, fatal_signal := True,
          trace := [Ev_delta_get, Ev_delta_put, Ev_test_and_set_bit TUX3_COMMIT_RUNNING_BIT,
            Ev_delta_transition]\<rparr>)"
  by (simp add: eval_defs busy_collab_def)

theorem killable_waits_witness:
  "fatal_signal state_killed \<and>
   (\<exists>r s' ws'. wait_for_transition spec_collab 1 [] state_killed = Returns r s' ws' \<and>
      r = - ERESTARTSYS) \<and>
   (\<exists>r s' ws'. wait_for_commit spec_collab 1 [] state_killed = Returns r s' ws' \<and>
      r = - ERESTARTSYS) \<and>
   tux3_writeback spec_collab [] state_killed =
     Returns (- ERESTARTSYS)
       (state_killed\<lparr>trace := [Ev_delta_get, Ev_delta_put,
          Ev_test_and_set_bit TUX3_COMMIT_RUNNING_BIT,
          Ev_test_and_set_bit TUX3_COMMIT_RUNNING_BIT]\<rparr>) [] \<and>
   (\<exists>s'. wait_event (test_bit TUX3_COMMIT_PENDING_BIT) [kill_wakeup] state_killed = Blocks s') \<and>
   wait_event (test_bit TUX3_COMMIT_PENDING_BIT) [kill_wakeup]
     (state0\<lparr>vol := sb0\<lparr>backend_state := {TUX3_COMMIT_PENDING_BIT}\<rparr>\<rparr>) =
     Returns () (state0\<lparr>vol := sb0\<lparr>backend_state := {TUX3_COMMIT_PENDING_BIT}\<rparr>\<rparr>) [kill_wakeup] \<and>
   test_bit TUX3_COMMIT_PENDING_BIT (state0\<lparr>vol := sb0\<lparr>backend_state := {TUX3_COMMIT_PENDING_BIT}\<rparr>\<rparr>)"
proof -
  let ?s3 = "state_killed\<lparr>trace := [Ev_delta_get, Ev_delta_put,
          Ev_test_and_set_bit TUX3_COMMIT_RUNNING_BIT,
          Ev_test_and_set_bit TUX3_COMMIT_RUNNING_BIT]\<rparr>"
  let ?p = "state0\<lparr>vol := sb0\<lparr>backend_state := {TUX3_COMMIT_PENDING_BIT}\<rparr>\<rparr>"
  have k: "fatal_signal state_killed" by (simp add: state_killed_def)
  have nd1: "\<not> delta_after_eq 0 1" by (simp add: delta_after_eq_def)
  have act: "s_flags_MS_ACTIVE (vol state_killed)" by (simp add: eval_defs)
  have g: "call_delta_get spec_collab state_killed = (\<lparr>delta = 1\<rparr>, log Ev_delta_get state_killed)"
    by (simp add: eval_defs)
  have w: "wait_for_transition spec_collab (delta \<lparr>delta = 1\<rparr>) []
      (call_delta_put spec_collab \<lparr>delta = 1\<rparr> (log Ev_delta_get state_killed)) = Returns (- 512) ?s3 []"
    by (simp add: eval_defs)
  have np: "\<not> test_bit TUX3_COMMIT_PENDING_BIT state_killed" by (simp add: eval_defs)
  have pres: "\<forall>w \<in> set [kill_wakeup]. \<forall>v. TUX3_COMMIT_PENDING_BIT \<notin> backend_state v \<longrightarrow>
        TUX3_COMMIT_PENDING_BIT \<notin> backend_state (others w v)"
    by (simp add: kill_wakeup_def)
  have we: "wait_event (test_bit TUX3_COMMIT_PENDING_BIT) [kill_wakeup] ?p = Returns () ?p [kill_wakeup]"
    by (simp add: eval_defs)
  note A = killable_waits [of state_killed "[]" spec_collab 1 "\<lparr>delta = 1\<rparr>"
      "log Ev_delta_get state_killed" "- 512" ?s3 "[]"]
  note B = killable_waits [of state_killed "[kill_wakeup]" spec_collab 1]
  note C = killable_waits [of ?p "[kill_wakeup]" spec_collab 1 _ _ _ _ _ "()" ?p "[kill_wakeup]"]
  have sk: "staging_delta (vol state_killed) = 0" "committed_delta (vol state_killed) = 0"
    by (simp_all add: eval_defs)
  from A k have t1: "\<exists>r s' ws'. wait_for_transition spec_collab 1 [] state_killed = Returns r s' ws' \<and>
         (r = 0 \<and> delta_after_eq (staging_delta (vol s')) 1 \<or>
          r = - ERESTARTSYS \<and> \<not> delta_after_eq (staging_delta (vol s')) 1)"
    by blast
  have t1': "\<exists>r s' ws'. wait_for_transition spec_collab 1 [] state_killed = Returns r s' ws' \<and>
      r = - ERESTARTSYS"
    using wft_killed_eval by (simp add: ERESTARTSYS_def)
  from A k have t2: "\<exists>r s' ws'. wait_for_commit spec_collab 1 [] state_killed = Returns r s' ws' \<and>
         (r = 0 \<and> delta_after_eq (committed_delta (vol s')) 1 \<or>
          r = - ERESTARTSYS \<and> \<not> delta_after_eq (committed_delta (vol s')) 1)"
    by blast
  have t2': "\<exists>r s' ws'. wait_for_commit spec_collab 1 [] state_killed = Returns r s' ws' \<and>
      r = - ERESTARTSYS"
    by (simp add: eval_defs)
  from A act g w have t3: "tux3_writeback spec_collab [] state_killed = Returns (- 512) ?s3 []"
    by simp
  from B np pres have t4: "\<exists>s'. wait_event (test_bit TUX3_COMMIT_PENDING_BIT) [kill_wakeup] state_killed = Blocks s'"
    by blast
  from C we have t5: "test_bit TUX3_COMMIT_PENDING_BIT ?p" by blast
  from k t1' t2' t3 t4 t5 we show ?thesis
    by (simp add: ERESTARTSYS_def)
qed


subsection \<open>The writeback pass\<close>

text \<open>The \<^verbatim>\<open>assert\<close> of line 198 holds whenever it is reached.\<close>

lemma tux3_writeback_no_assert: "tux3_writeback c ws s \<noteq> Assert_fails s'"
proof (cases "s_flags_MS_ACTIVE (vol s)")
  case False
  then show ?thesis by (simp add: tux3_writeback_def)
next
  case act: True
  obtain ref s1 where g: "call_delta_get c s = (ref, s1)" by (cases "call_delta_get c s")
  let ?s2 = "call_delta_put c ref s1"
  show ?thesis
  proof (cases "wait_for_transition c (delta ref) ws ?s2")
    case t: (Returns e3 s3 ws3)
    note rt = wait_for_transition_returns [OF t]
    show ?thesis
    proof (cases "e3 = 0")
      case False
      with act g t show ?thesis by (simp add: tux3_writeback_def Let_def)
    next
      case True
      with rt have st: "delta_after_eq (staging_delta (vol s3)) (delta ref)"
        by (auto simp: ERESTARTSYS_def)
      with act g t True show ?thesis
        by (auto simp: tux3_writeback_def Let_def wait_event_no_assert split: outcome.splits)
    qed
  next
    case (Blocks s'')
    with act g show ?thesis by (simp add: tux3_writeback_def Let_def)
  next
    case (Assert_fails s'')
    then show ?thesis by (simp add: wait_for_transition_no_assert)
  qed
qed

text \<open>
  Claim C10. If \<^verbatim>\<open>MS_ACTIVE\<close> is not set, \<^verbatim>\<open>tux3_writeback\<close> returns 0 at once: the
  state is the one it was called in, trace included, and no wakeup is used, so no
  reference was taken, nothing was waited for and nothing was flushed. If the bit is
  set, a call that returns either returns 1 with \<^verbatim>\<open>*nr_pages\<close> set to 0, or returns
  \<^verbatim>\<open>-ERESTARTSYS\<close> from \<^verbatim>\<open>wait_for_transition\<close>.
\<close>

theorem tux3_writeback_result:
  "(\<not> s_flags_MS_ACTIVE (vol s) \<longrightarrow> tux3_writeback c ws s = Returns 0 s ws) \<and>
   (s_flags_MS_ACTIVE (vol s) \<and> tux3_writeback c ws s = Returns r s' ws' \<longrightarrow>
      (r = 1 \<and> nr_pages s' = 0) \<or> (r = - ERESTARTSYS \<and> fatal_signal s'))"
proof -
  have "(r = 1 \<and> nr_pages s' = 0) \<or> (r = - ERESTARTSYS \<and> fatal_signal s')"
    if act: "s_flags_MS_ACTIVE (vol s)" and ret: "tux3_writeback c ws s = Returns r s' ws'"
  proof -
    obtain ref s1 where g: "call_delta_get c s = (ref, s1)" by (cases "call_delta_get c s")
    let ?s2 = "call_delta_put c ref s1"
    show ?thesis
    proof (cases "wait_for_transition c (delta ref) ws ?s2")
      case (Returns err s3 ws3)
      note w = wait_for_transition_returns [OF Returns]
      show ?thesis
      proof (cases "err = 0")
        case True
        with w have st: "delta_after_eq (staging_delta (vol s3)) (delta ref)"
          by (auto simp: ERESTARTSYS_def)
        from act g Returns True st ret show ?thesis
          by (auto simp: tux3_writeback_def Let_def split: outcome.splits)
      next
        case False
        with act g Returns ret have "r = err" "s' = s3"
          by (simp_all add: tux3_writeback_def Let_def)
        with w False show ?thesis by simp
      qed
    next
      case (Blocks s'')
      with act g ret show ?thesis by (simp add: tux3_writeback_def Let_def)
    next
      case (Assert_fails s'')
      with act g ret show ?thesis by (simp add: tux3_writeback_def Let_def)
    qed
  qed
  then show ?thesis by (simp add: tux3_writeback_def)
qed

lemma tux3_writeback_ok_eval:
  "tux3_writeback spec_collab [] state0 =
     Returns 1
       (state0\<lparr>vol := sb0\<lparr>staging_delta := 1, committed_delta := 1\<rparr>, nr_pages := 0,
          trace := [Ev_delta_get, Ev_delta_put, Ev_test_and_set_bit TUX3_COMMIT_RUNNING_BIT,
            Ev_delta_transition, Ev_clear_bit TUX3_COMMIT_PENDING_BIT, Ev_flush_delta]\<rparr>) []"
  by (simp add: eval_defs)

text \<open>
  An inactive superblock, and an active one on which the pass stages, flushes and
  returns 1.
\<close>

theorem tux3_writeback_result_witness:
  "\<not> s_flags_MS_ACTIVE (vol (state0\<lparr>vol := sb0\<lparr>s_flags_MS_ACTIVE := False\<rparr>\<rparr>)) \<and>
   tux3_writeback spec_collab [kill_wakeup] (state0\<lparr>vol := sb0\<lparr>s_flags_MS_ACTIVE := False\<rparr>\<rparr>) =
     Returns 0 (state0\<lparr>vol := sb0\<lparr>s_flags_MS_ACTIVE := False\<rparr>\<rparr>) [kill_wakeup] \<and>
   s_flags_MS_ACTIVE (vol state0) \<and>
   tux3_writeback spec_collab [] state0 =
     Returns 1
       (state0\<lparr>vol := sb0\<lparr>staging_delta := 1, committed_delta := 1\<rparr>, nr_pages := 0,
          trace := [Ev_delta_get, Ev_delta_put, Ev_test_and_set_bit TUX3_COMMIT_RUNNING_BIT,
            Ev_delta_transition, Ev_clear_bit TUX3_COMMIT_PENDING_BIT, Ev_flush_delta]\<rparr>) [] \<and>
   nr_pages state0 = 7"
proof -
  let ?i = "state0\<lparr>vol := sb0\<lparr>s_flags_MS_ACTIVE := False\<rparr>\<rparr>"
  let ?f = "state0\<lparr>vol := sb0\<lparr>staging_delta := 1, committed_delta := 1\<rparr>, nr_pages := 0,
          trace := [Ev_delta_get, Ev_delta_put, Ev_test_and_set_bit TUX3_COMMIT_RUNNING_BIT,
            Ev_delta_transition, Ev_clear_bit TUX3_COMMIT_PENDING_BIT, Ev_flush_delta]\<rparr>"
  have i: "\<not> s_flags_MS_ACTIVE (vol ?i)" by simp
  have a: "s_flags_MS_ACTIVE (vol state0)" by (simp add: state0_def sb0_def)
  from tux3_writeback_result [of ?i spec_collab "[kill_wakeup]"] i
  have 1: "tux3_writeback spec_collab [kill_wakeup] ?i = Returns 0 ?i [kill_wakeup]" by blast
  from tux3_writeback_result [of state0 spec_collab "[]" 1 ?f "[]"] a tux3_writeback_ok_eval
  have 2: "nr_pages ?f = 0" by (simp add: ERESTARTSYS_def)
  from i a 1 2 tux3_writeback_ok_eval show ?thesis by (simp add: state0_def)
qed


subsection \<open>The async \<^verbatim>\<open>sync_current_delta\<close>\<close>

lemma down_read_s_umount_trace:
  "down_read_s_umount ws s = Returns u s1 ws1 \<Longrightarrow> trace s1 = trace s"
  by (induction ws arbitrary: s) (auto simp: sleep_def map_vol_def split: if_splits)

lemma down_read_s_umount_no_assert: "down_read_s_umount ws s \<noteq> Assert_fails s'"
  by (induction ws arbitrary: s) auto

lemma down_read_s_umount_free:
  "\<not> writer (s_umount (vol s)) \<Longrightarrow> \<exists>s1. down_read_s_umount ws s = Returns () s1 ws"
  by (cases ws) auto

text \<open>
  Claim C8. In the async configuration \<^verbatim>\<open>sync_current_delta\<close> with \<^verbatim>\<open>FORCE_UNIFY\<close> is the
  call with \<^verbatim>\<open>ALLOW_UNIFY\<close> after one warning. No \<^verbatim>\<open>assert\<close> fails; when it returns,
  it returns 0 and has called \<^verbatim>\<open>sync_inodes_sb\<close> and nothing else, in particular not
  \<^verbatim>\<open>flush_delta\<close>; and it does return unless a writer holds \<^verbatim>\<open>s_umount\<close>.
\<close>

theorem async_sync_current_delta_force:
  "async_sync_current_delta c FORCE_UNIFY ws s =
     async_sync_current_delta c ALLOW_UNIFY ws (log Ev_WARN s) \<and>
   async_sync_current_delta c FORCE_UNIFY ws s \<noteq> Assert_fails s' \<and>
   (async_sync_current_delta c FORCE_UNIFY ws s = Returns r s' ws' \<longrightarrow>
      r = 0 \<and> trace s' = trace s @ [Ev_WARN, Ev_sync_inodes_sb]) \<and>
   (\<not> writer (s_umount (vol s)) \<longrightarrow>
      (\<exists>s'. async_sync_current_delta c FORCE_UNIFY ws s = Returns 0 s' ws))"
proof -
  have 1: "async_sync_current_delta c FORCE_UNIFY ws s =
     async_sync_current_delta c ALLOW_UNIFY ws (log Ev_WARN s)"
    by (simp add: async_sync_current_delta_def WARN_ON_def)
  have 2: "async_sync_current_delta c FORCE_UNIFY ws s \<noteq> Assert_fails s'"
    by (auto simp: async_sync_current_delta_def Let_def down_read_s_umount_no_assert
        split: outcome.splits)
  have 3: "r = 0 \<and> trace s' = trace s @ [Ev_WARN, Ev_sync_inodes_sb]"
    if "async_sync_current_delta c FORCE_UNIFY ws s = Returns r s' ws'"
    using that
    by (auto simp: async_sync_current_delta_def Let_def WARN_ON_def up_read_s_umount_def
        call_sync_inodes_sb_def log_def map_vol_def
        dest!: down_read_s_umount_trace split: outcome.splits)
  have 4: "\<exists>s'. async_sync_current_delta c FORCE_UNIFY ws s = Returns 0 s' ws"
    if "\<not> writer (s_umount (vol s))"
  proof -
    from that have "\<not> writer (s_umount (vol (WARN_ON True s)))"
      by (simp add: WARN_ON_def log_def)
    from down_read_s_umount_free [OF this, of ws] show ?thesis
      by (auto simp: async_sync_current_delta_def Let_def)
  qed
  from 1 2 3 4 show ?thesis by blast
qed

text \<open>
  On a quiet volume the forcing call and the allowing call differ by the warning only.
\<close>

theorem async_sync_current_delta_force_witness:
  "\<not> writer (s_umount (vol state0)) \<and>
   async_sync_current_delta spec_collab FORCE_UNIFY [] state0 =
     Returns 0 (state0\<lparr>trace := [Ev_WARN, Ev_sync_inodes_sb]\<rparr>) [] \<and>
   async_sync_current_delta spec_collab ALLOW_UNIFY [] state0 =
     Returns 0 (state0\<lparr>trace := [Ev_sync_inodes_sb]\<rparr>) []"
proof -
  have f: "\<not> writer (s_umount (vol state0))" by (simp add: eval_defs)
  have e: "async_sync_current_delta spec_collab FORCE_UNIFY [] state0 =
     Returns 0 (state0\<lparr>trace := [Ev_WARN, Ev_sync_inodes_sb]\<rparr>) []"
    by (simp add: eval_defs)
  have a: "async_sync_current_delta spec_collab ALLOW_UNIFY [] state0 =
     Returns 0 (state0\<lparr>trace := [Ev_sync_inodes_sb]\<rparr>) []"
    by (simp add: eval_defs)
  from async_sync_current_delta_force [where c = spec_collab and ws = "[]" and s = state0
      and r = 0 and s' = "state0\<lparr>trace := [Ev_WARN, Ev_sync_inodes_sb]\<rparr>" and ws' = "[]"] f e
  have "trace (state0\<lparr>trace := [Ev_WARN, Ev_sync_inodes_sb]\<rparr>) =
      trace state0 @ [Ev_WARN, Ev_sync_inodes_sb] \<and>
    (\<exists>s'. async_sync_current_delta spec_collab FORCE_UNIFY [] state0 = Returns 0 s' [])"
    by blast
  with f e a show ?thesis by simp
qed

subsection \<open>The sync \<^verbatim>\<open>sync_current_delta\<close>\<close>

lemma down_write_delta_lock_trace:
  "down_write_delta_lock ws s = Returns u s1 ws1 \<Longrightarrow> trace s1 = trace s"
  by (induction ws arbitrary: s) (auto simp: sleep_def map_vol_def split: if_splits)

lemma down_write_delta_lock_no_assert: "down_write_delta_lock ws s \<noteq> Assert_fails s'"
  by (induction ws arbitrary: s) auto

text \<open>The two \<^verbatim>\<open>assert\<close>s of lines 124 and 128 hold whenever they are reached.\<close>

lemma sync_current_delta_no_assert:
  "sync_current_delta c unify_flag ws s \<noteq> Assert_fails s'"
proof (cases "down_write_delta_lock ws s")
  case (Returns u s1 ws1)
  obtain ref s2 where g: "call_delta_get c s1 = (ref, s2)" by (cases "call_delta_get c s1")
  let ?s3 = "call_delta_put c ref s2"
  show ?thesis
  proof (cases "wait_for_transition c (delta ref) ws1 ?s3")
    case t: (Returns e4 s4 ws4)
    note rt = wait_for_transition_returns [OF t]
    show ?thesis
    proof (cases "e4 = 0")
      case False
      with Returns g t show ?thesis by (simp add: sync_current_delta_def Let_def)
    next
      case True
      with rt have st: "delta_after_eq (staging_delta (vol s4)) (delta ref)"
        by (auto simp: ERESTARTSYS_def)
      show ?thesis
      proof (cases "wait_for_commit c (delta ref) ws4 s4")
        case f: (Returns e5 s5 ws5)
        from wait_for_commit_returns [OF f]
        have "e5 \<noteq> 0 \<or> delta_after_eq (committed_delta (vol s5)) (delta ref)"
          by (auto simp: ERESTARTSYS_def)
        with Returns g t True st f show ?thesis
          by (auto simp: sync_current_delta_def Let_def)
      next
        case (Blocks s'')
        with Returns g t True st show ?thesis by (simp add: sync_current_delta_def Let_def)
      next
        case (Assert_fails s'')
        then show ?thesis by (simp add: wait_for_commit_no_assert)
      qed
    qed
  next
    case (Blocks s'')
    with Returns g show ?thesis by (simp add: sync_current_delta_def Let_def)
  next
    case (Assert_fails s'')
    then show ?thesis by (simp add: wait_for_transition_no_assert)
  qed
next
  case (Blocks s'')
  then show ?thesis by (simp add: sync_current_delta_def)
next
  case (Assert_fails s'')
  then show ?thesis by (simp add: down_write_delta_lock_no_assert)
qed

text \<open>
  Claim C9. Let \<open>D\<close> be the current delta that \<^verbatim>\<open>sync_current_delta\<close> (sync flusher)
  reads through \<^verbatim>\<open>delta_get\<close>. If \<open>staging_delta\<close> and \<open>committed_delta\<close> are both after
  or equal to \<open>D\<close> once the reference is dropped, the call returns 0 with \<^verbatim>\<open>delta_lock\<close>
  released. Its trace gains \<^verbatim>\<open>delta_get\<close> and \<^verbatim>\<open>delta_put\<close> only: neither
  \<^verbatim>\<open>delta_transition\<close> nor \<^verbatim>\<open>flush_delta\<close> is called, and no bit of \<^verbatim>\<open>backend_state\<close>
  is set or cleared. Whether \<^verbatim>\<open>TUX3_COMMIT_PENDING_BIT\<close> is set does not matter.
\<close>

theorem sync_current_delta_nothing_to_do:
  assumes lock: "down_write_delta_lock ws s = Returns () s1 ws1"
    and get: "call_delta_get c s1 = (ref, s2)"
    and staged: "delta_after_eq (staging_delta (vol (call_delta_put c ref s2))) (delta ref)"
    and committed: "delta_after_eq (committed_delta (vol (call_delta_put c ref s2))) (delta ref)"
  shows "sync_current_delta c unify_flag ws s =
           Returns 0 (up_write_delta_lock (call_delta_put c ref s2)) ws1 \<and>
         trace (up_write_delta_lock (call_delta_put c ref s2)) =
           trace s @ [Ev_delta_get, Ev_delta_put] \<and>
         backend_state (vol (up_write_delta_lock (call_delta_put c ref s2))) =
           backend_state (vol (call_delta_put c ref s2))"
proof -
  let ?s3 = "call_delta_put c ref s2"
  have t: "wait_for_transition c (delta ref) ws1 ?s3 = Returns 0 ?s3 ws1"
    using staged
    by (simp add: wait_for_transition_def wait_event_killable_def
        try_delta_transition_until_delta_def)
  have f: "wait_for_commit c (delta ref) ws1 ?s3 = Returns 0 ?s3 ws1"
    using committed
    by (simp add: wait_for_commit_def wait_event_killable_def
        try_flush_pending_until_delta_def)
  have r: "sync_current_delta c unify_flag ws s = Returns 0 (up_write_delta_lock ?s3) ws1"
    using lock get t f staged committed by (simp add: sync_current_delta_def)
  from get have "trace s2 = trace s1 @ [Ev_delta_get]"
    by (auto simp: call_delta_get_def log_def split: prod.splits)
  with down_write_delta_lock_trace [OF lock]
  have tr: "trace (up_write_delta_lock ?s3) = trace s @ [Ev_delta_get, Ev_delta_put]"
    by (simp add: up_write_delta_lock_def call_delta_put_def log_def map_vol_def)
  have b: "backend_state (vol (up_write_delta_lock ?s3)) = backend_state (vol ?s3)"
    by (simp add: up_write_delta_lock_def map_vol_def)
  from r tr b show ?thesis by simp
qed


text \<open>
  The volume at epoch 0, nothing pending, the current delta staged and committed.
\<close>

theorem sync_current_delta_nothing_to_do_witness:
  "down_write_delta_lock [] state0 =
     Returns () (state0\<lparr>vol := sb0\<lparr>delta_lock := \<lparr>writer = True, readers = 0\<rparr>\<rparr>\<rparr>) [] \<and>
   TUX3_COMMIT_PENDING_BIT \<notin> backend_state (vol state0) \<and>
   delta_after_eq (staging_delta (vol state0)) 0 \<and>
   delta_after_eq (committed_delta (vol state0)) 0 \<and>
   sync_current_delta staged_collab ALLOW_UNIFY [] state0 =
     Returns 0 (state0\<lparr>trace := [Ev_delta_get, Ev_delta_put]\<rparr>) []"
proof -
  let ?s1 = "state0\<lparr>vol := sb0\<lparr>delta_lock := \<lparr>writer = True, readers = 0\<rparr>\<rparr>\<rparr>"
  let ?s2 = "log Ev_delta_get ?s1"
  have l: "down_write_delta_lock [] state0 = Returns () ?s1 []"
    by (simp add: eval_defs)
  have g: "call_delta_get staged_collab ?s1 = (\<lparr>delta = 0\<rparr>, ?s2)"
    by (simp add: eval_defs)
  have a: "delta_after_eq (staging_delta (vol (call_delta_put staged_collab \<lparr>delta = 0\<rparr> ?s2)))
      (delta \<lparr>delta = 0\<rparr>)"
    by (simp add: eval_defs)
  have b: "delta_after_eq (committed_delta (vol (call_delta_put staged_collab \<lparr>delta = 0\<rparr> ?s2)))
      (delta \<lparr>delta = 0\<rparr>)"
    by (simp add: eval_defs)
  have u: "up_write_delta_lock (call_delta_put staged_collab \<lparr>delta = 0\<rparr> ?s2) =
      state0\<lparr>trace := [Ev_delta_get, Ev_delta_put]\<rparr>"
    by (simp add: eval_defs)
  have p: "TUX3_COMMIT_PENDING_BIT \<notin> backend_state (vol state0)"
    "delta_after_eq (staging_delta (vol state0)) 0"
    "delta_after_eq (committed_delta (vol state0)) 0"
    by (simp_all add: eval_defs)
  from sync_current_delta_nothing_to_do [OF l g a b, of ALLOW_UNIFY] u
  have "sync_current_delta staged_collab ALLOW_UNIFY [] state0 =
     Returns 0 (state0\<lparr>trace := [Ev_delta_get, Ev_delta_put]\<rparr>) []"
    by simp
  with l p show ?thesis by simp
qed

text \<open>
  Claim C2 fails on the code. A caller for which a fatal signal is pending, on a volume
  where another thread holds \<^verbatim>\<open>TUX3_COMMIT_RUNNING_BIT\<close>, takes \<^verbatim>\<open>delta_lock\<close>, gets
  \<^verbatim>\<open>-ERESTARTSYS\<close> from \<^verbatim>\<open>wait_for_transition\<close> and returns at line 123, before the
  \<^verbatim>\<open>up_write\<close> of line 129: the lock is still held by a writer. The next call sleeps in
  \<^verbatim>\<open>down_write\<close>.
\<close>

theorem sync_current_delta_killed_keeps_delta_lock:
  "\<not> writer (delta_lock (vol state_killed)) \<and>
   sync_current_delta spec_collab ALLOW_UNIFY [] state_killed =
     Returns (- ERESTARTSYS) state_leaked [] \<and>
   writer (delta_lock (vol state_leaked)) \<and>
   sync_current_delta spec_collab ALLOW_UNIFY [kill_wakeup] state_leaked = Blocks state_leaked"
  by (simp add: eval_defs state_leaked_def)

text \<open>The lock is free before the first call and held after it.\<close>

theorem sync_current_delta_killed_keeps_delta_lock_witness:
  "fatal_signal state_killed \<and> \<not> writer (delta_lock (vol state_killed)) \<and>
   writer (delta_lock (vol state_leaked))"
  using sync_current_delta_killed_keeps_delta_lock by (simp add: state_killed_def)

text \<open>
  The other error path does release the lock: killed in \<^verbatim>\<open>wait_for_commit\<close>, the call
  goes through the \<^verbatim>\<open>up_write\<close> of line 129.
\<close>

lemma sync_current_delta_commit_killed_releases_delta_lock:
  "sync_current_delta staged_collab ALLOW_UNIFY []
     (state0\<lparr>vol := sb0\<lparr>staging_delta := 1\<rparr>, fatal_signal := True\<rparr>) =
   Returns (- ERESTARTSYS)
     (state0\<lparr>vol := sb0\<lparr>staging_delta := 1\<rparr>, fatal_signal := True,
             trace := [Ev_delta_get, Ev_delta_put]\<rparr>) []"
  by (simp add: eval_defs)

text \<open>
  Claim C5 fails on the code. \<^verbatim>\<open>flush_delta\<close> fails with \<^verbatim>\<open>-EIO\<close>;
  \<^verbatim>\<open>flush_pending_delta\<close> returns that error, \<^verbatim>\<open>try_flush_pending_until_delta\<close> drops
  it at line 92, and \<^verbatim>\<open>sync_current_delta\<close> returns 0.
\<close>

theorem sync_current_delta_drops_flush_error:
  "fst (flush_delta eio_collab v) = - EIO \<and> - EIO \<noteq> 0 \<and>
   sync_current_delta eio_collab ALLOW_UNIFY [] state0 =
     Returns 0
       (state0\<lparr>vol := sb0\<lparr>staging_delta := 1, committed_delta := 1\<rparr>,
          trace := [Ev_delta_get, Ev_delta_put, Ev_test_and_set_bit TUX3_COMMIT_RUNNING_BIT,
            Ev_delta_transition, Ev_test_and_clear_bit TUX3_COMMIT_PENDING_BIT,
            Ev_flush_delta]\<rparr>) []"
  by (simp add: eval_defs eio_collab_def EIO_def)

text \<open>The failing flush was called, once, and its error is not 0.\<close>

theorem sync_current_delta_drops_flush_error_witness:
  "fst (flush_delta eio_collab sb0) = - 5 \<and>
   flush_calls
     (state0\<lparr>vol := sb0\<lparr>staging_delta := 1, committed_delta := 1\<rparr>,
        trace := [Ev_delta_get, Ev_delta_put, Ev_test_and_set_bit TUX3_COMMIT_RUNNING_BIT,
          Ev_delta_transition, Ev_test_and_clear_bit TUX3_COMMIT_PENDING_BIT,
          Ev_flush_delta]\<rparr>) = 1"
  using sync_current_delta_drops_flush_error [of sb0]
  by (simp add: EIO_def flush_calls_def)

text \<open>
  Whatever the collaborators do, \<^verbatim>\<open>sync_current_delta\<close> returns 0 or \<^verbatim>\<open>-ERESTARTSYS\<close>,
  never an error of \<^verbatim>\<open>flush_delta\<close>.
\<close>

lemma sync_current_delta_return_values:
  assumes "sync_current_delta c unify_flag ws s = Returns r s' ws'"
  shows "r = 0 \<or> r = - ERESTARTSYS"
proof -
  from assms obtain u s1 ws1 where l: "down_write_delta_lock ws s = Returns u s1 ws1"
    by (auto simp: sync_current_delta_def split: outcome.splits)
  obtain ref s2 where g: "call_delta_get c s1 = (ref, s2)" by (cases "call_delta_get c s1")
  let ?s3 = "call_delta_put c ref s2"
  from assms l g obtain e4 s4 ws4 where
    t: "wait_for_transition c (delta ref) ws1 ?s3 = Returns e4 s4 ws4"
    by (auto simp: sync_current_delta_def Let_def split: outcome.splits)
  show ?thesis
  proof (cases "e4 = 0")
    case False
    with assms l g t have "r = e4" by (simp add: sync_current_delta_def Let_def)
    with wait_for_transition_returns [OF t] show ?thesis by blast
  next
    case True
    with assms l g t obtain s5 where
      "wait_for_commit c (delta ref) ws4 s4 = Returns r s5 ws'"
      by (auto simp: sync_current_delta_def Let_def split: outcome.splits if_splits)
    with wait_for_commit_returns show ?thesis by blast
  qed
qed

text \<open>
  The first half of claim C5 holds: when the call returns 0, \<open>committed_delta\<close> is after
  or equal to the delta it read.
\<close>

lemma sync_current_delta_success_committed:
  assumes ret: "sync_current_delta c unify_flag ws s = Returns 0 s' ws'"
    and l: "down_write_delta_lock ws s = Returns u s1 ws1"
    and g: "call_delta_get c s1 = (ref, s2)"
  shows "delta_after_eq (committed_delta (vol s')) (delta ref)"
proof -
  let ?s3 = "call_delta_put c ref s2"
  from ret l g obtain e4 s4 ws4 where
    t: "wait_for_transition c (delta ref) ws1 ?s3 = Returns e4 s4 ws4"
    by (auto simp: sync_current_delta_def Let_def split: outcome.splits)
  show ?thesis
  proof (cases "e4 = 0")
    case False
    with ret l g t show ?thesis by (simp add: sync_current_delta_def Let_def)
  next
    case True
    with ret l g t obtain s5 where
      f: "wait_for_commit c (delta ref) ws4 s4 = Returns 0 s5 ws'"
      and s': "s' = up_write_delta_lock s5"
      by (auto simp: sync_current_delta_def Let_def split: outcome.splits if_splits)
    from wait_for_commit_returns [OF f] have "delta_after_eq (committed_delta (vol s5)) (delta ref)"
      by (simp add: ERESTARTSYS_def)
    with s' show ?thesis by (simp add: up_write_delta_lock_def map_vol_def)
  qed
qed


text \<open>The async \<^verbatim>\<open>sync_current_delta\<close> has one value, 0 (line 227).\<close>

lemma async_sync_current_delta_returns_zero:
  "async_sync_current_delta c unify_flag ws s = Returns r s' ws' \<Longrightarrow> r = 0"
  by (auto simp: async_sync_current_delta_def Let_def split: outcome.splits)

lemma map_vol_id [simp]: "map_vol (\<lambda>v. v) s = s"
  by (simp add: map_vol_def)

subsection \<open>The machines and the functions\<close>

text \<open>
  Left alone, the machine of \<^verbatim>\<open>try_delta_transition_until_delta\<close> computes what the
  function does.
\<close>

lemma tdt_run_alone:
  "run_interfered (tdt_step c d) (replicate 5 (\<lambda>v. v)) (TDT_63, s) =
     (case try_delta_transition_until_delta c d s of (r, s') \<Rightarrow> (TDT_ret r, s'))"
  by (simp add: numeral_eq_Suc try_delta_transition_until_delta_def Let_def
      split: prod.splits)

text \<open>
  Claim C4. A thread in \<^verbatim>\<open>try_delta_transition_until_delta\<close> whose first check fails,
  that then wins \<^verbatim>\<open>TUX3_COMMIT_RUNNING_BIT\<close> and at its second check finds
  \<open>staging_delta\<close> after or equal to the target, whatever the other threads did between
  its steps (\<open>e0\<close>, \<open>e1\<close>, \<open>e2\<close>), returns 1 having done \<^verbatim>\<open>test_and_set_bit\<close> and
  \<^verbatim>\<open>clear_bit\<close> and nothing else: the flag is clear again and \<^verbatim>\<open>delta_transition\<close> was
  not called. A step calls \<^verbatim>\<open>delta_transition\<close> only at line 73; line 73 is reached only
  from the second check, and only when it found the predicate false; the second check is
  reached only by the thread that found the flag clear at line 66.
\<close>

theorem try_delta_transition_until_delta_recheck:
  "(\<not> delta_after_eq (staging_delta (vol s)) d \<and>
    TUX3_COMMIT_RUNNING_BIT \<notin> backend_state (e0 (vol s)) \<and>
    delta_after_eq
      (staging_delta (e1 (vol (snd (test_and_set_bit TUX3_COMMIT_RUNNING_BIT (map_vol e0 s))))))
      d \<longrightarrow>
      fst (run_interfered (tdt_step c d) [e0, e1, e2, \<lambda>v. v] (TDT_63, s)) = TDT_ret 1 \<and>
      trace (snd (run_interfered (tdt_step c d) [e0, e1, e2, \<lambda>v. v] (TDT_63, s))) =
        trace s @ [Ev_test_and_set_bit TUX3_COMMIT_RUNNING_BIT,
                   Ev_clear_bit TUX3_COMMIT_RUNNING_BIT] \<and>
      TUX3_COMMIT_RUNNING_BIT \<notin>
        backend_state (vol (snd (run_interfered (tdt_step c d) [e0, e1, e2, \<lambda>v. v] (TDT_63, s))))) \<and>
   (tdt_step c d pc s = (pc', s') \<longrightarrow>
      (trace s' = trace s @ [Ev_delta_transition] \<longleftrightarrow> pc = TDT_73) \<and>
      (pc' = TDT_73 \<longleftrightarrow> pc = TDT_68 \<and> \<not> delta_after_eq (staging_delta (vol s)) d) \<and>
      (pc' = TDT_68 \<longleftrightarrow> pc = TDT_66 \<and> TUX3_COMMIT_RUNNING_BIT \<notin> backend_state (vol s)))"
proof -
  have step: "(trace s' = trace s @ [Ev_delta_transition] \<longleftrightarrow> pc = TDT_73) \<and>
      (pc' = TDT_73 \<longleftrightarrow> pc = TDT_68 \<and> \<not> delta_after_eq (staging_delta (vol s)) d) \<and>
      (pc' = TDT_68 \<longleftrightarrow> pc = TDT_66 \<and> TUX3_COMMIT_RUNNING_BIT \<notin> backend_state (vol s))"
    if "tdt_step c d pc s = (pc', s')"
    using that
    by (cases pc)
       (auto simp: test_and_set_bit_def test_bit_def clear_bit_def call_delta_transition_def
         log_def map_vol_def split: if_splits)
  have run: "fst (run_interfered (tdt_step c d) [e0, e1, e2, \<lambda>v. v] (TDT_63, s)) = TDT_ret 1 \<and>
      trace (snd (run_interfered (tdt_step c d) [e0, e1, e2, \<lambda>v. v] (TDT_63, s))) =
        trace s @ [Ev_test_and_set_bit TUX3_COMMIT_RUNNING_BIT,
                   Ev_clear_bit TUX3_COMMIT_RUNNING_BIT] \<and>
      TUX3_COMMIT_RUNNING_BIT \<notin>
        backend_state (vol (snd (run_interfered (tdt_step c d) [e0, e1, e2, \<lambda>v. v] (TDT_63, s))))"
    if "\<not> delta_after_eq (staging_delta (vol s)) d"
      and "TUX3_COMMIT_RUNNING_BIT \<notin> backend_state (e0 (vol s))"
      and "delta_after_eq
        (staging_delta (e1 (vol (snd (test_and_set_bit TUX3_COMMIT_RUNNING_BIT (map_vol e0 s))))))
        d"
    using that
    by (simp add: test_and_set_bit_def test_bit_def clear_bit_def log_def map_vol_def)
  from step run show ?thesis by blast
qed


text \<open>
  Another thread runs the whole transition between the first check and the
  \<^verbatim>\<open>test_and_set_bit\<close>; and, from a second check that fails, the transition is called.
\<close>

theorem try_delta_transition_until_delta_recheck_witness:
  "\<not> delta_after_eq (staging_delta (vol state0)) 1 \<and>
   TUX3_COMMIT_RUNNING_BIT \<notin> backend_state (spec_delta_transition (vol state0)) \<and>
   delta_after_eq (staging_delta (spec_delta_transition (vol state0))) 1 \<and>
   run_interfered (tdt_step spec_collab 1)
       [spec_delta_transition, \<lambda>v. v, \<lambda>v. v, \<lambda>v. v] (TDT_63, state0) =
     (TDT_ret 1,
      state0\<lparr>vol := sb0\<lparr>staging_delta := 1, backend_state := {TUX3_COMMIT_PENDING_BIT}\<rparr>,
        trace := [Ev_test_and_set_bit TUX3_COMMIT_RUNNING_BIT,
                  Ev_clear_bit TUX3_COMMIT_RUNNING_BIT]\<rparr>) \<and>
   tdt_step spec_collab 1 TDT_68 state0 = (TDT_73, state0) \<and>
   tdt_step spec_collab 1 TDT_73 state0 =
     (TDT_76,
      state0\<lparr>vol := sb0\<lparr>staging_delta := 1, backend_state := {TUX3_COMMIT_PENDING_BIT}\<rparr>,
        trace := [Ev_delta_transition]\<rparr>)"
proof -
  let ?run = "run_interfered (tdt_step spec_collab 1)
       [spec_delta_transition, \<lambda>v. v, \<lambda>v. v, \<lambda>v. v] (TDT_63, state0)"
  have h1: "\<not> delta_after_eq (staging_delta (vol state0)) 1"
    by (simp add: eval_defs)
  have h2: "TUX3_COMMIT_RUNNING_BIT \<notin> backend_state (spec_delta_transition (vol state0))"
    by (simp add: eval_defs)
  have h3: "delta_after_eq
      (staging_delta ((\<lambda>v. v) (vol (snd (test_and_set_bit TUX3_COMMIT_RUNNING_BIT
         (map_vol spec_delta_transition state0)))))) 1"
    by (simp add: eval_defs)
  have h3': "delta_after_eq (staging_delta (spec_delta_transition (vol state0))) 1"
    by (simp add: eval_defs)
  have r: "?run =
     (TDT_ret 1,
      state0\<lparr>vol := sb0\<lparr>staging_delta := 1, backend_state := {TUX3_COMMIT_PENDING_BIT}\<rparr>,
        trace := [Ev_test_and_set_bit TUX3_COMMIT_RUNNING_BIT,
                  Ev_clear_bit TUX3_COMMIT_RUNNING_BIT]\<rparr>)"
    by (simp add: eval_defs)
  have s68: "tdt_step spec_collab 1 TDT_68 state0 = (TDT_73, state0)"
    by (simp add: eval_defs)
  have s73: "tdt_step spec_collab 1 TDT_73 state0 =
     (TDT_76,
      state0\<lparr>vol := sb0\<lparr>staging_delta := 1, backend_state := {TUX3_COMMIT_PENDING_BIT}\<rparr>,
        trace := [Ev_delta_transition]\<rparr>)"
    by (simp add: eval_defs)
  from try_delta_transition_until_delta_recheck
     [where s = state0 and d = 1 and c = spec_collab and ?e0.0 = spec_delta_transition
        and ?e1.0 = "\<lambda>v. v" and ?e2.0 = "\<lambda>v. v" and pc = TDT_68 and pc' = TDT_73
        and s' = state0]
    h1 h2 h3 s68
  have "fst ?run = TDT_ret 1 \<and>
    trace (snd ?run) = trace state0 @ [Ev_test_and_set_bit TUX3_COMMIT_RUNNING_BIT,
                   Ev_clear_bit TUX3_COMMIT_RUNNING_BIT] \<and>
    \<not> delta_after_eq (staging_delta (vol state0)) 1"
    by blast
  with h1 h2 h3' r s68 s73 show ?thesis by simp
qed

subsection \<open>The election of the flusher\<close>

lemma flushing_update:
  "i < length pcs \<Longrightarrow>
     flushing (pcs[i := pc]) + (if pcs ! i = FPD_42 then 1 else 0) =
     flushing pcs + (if pc = FPD_42 then 1 else 0)"
  unfolding flushing_def
proof (induction pcs arbitrary: i)
  case Nil
  then show ?case by simp
next
  case (Cons a pcs)
  show ?case
  proof (cases i)
    case 0
    then show ?thesis by simp
  next
    case (Suc j)
    with Cons.prems have "j < length pcs" by simp
    from Cons.IH [OF this] Suc show ?thesis by (simp split: if_splits)
  qed
qed

lemma fpd_step_budget:
  assumes fd: "\<forall>v. TUX3_COMMIT_PENDING_BIT \<in> backend_state (snd (flush_delta c v)) \<longrightarrow>
                 TUX3_COMMIT_PENDING_BIT \<in> backend_state v"
    and i: "i < length pcs"
    and st: "fpd_step c (pcs ! i) s = (pc', s')"
  shows "flush_calls s' + flushing (pcs[i := pc']) + pending s' \<le>
         flush_calls s + flushing pcs + pending s"
proof -
  note u = flushing_update [OF i, of pc']
  show ?thesis
  proof (cases "pcs ! i")
    case FPD_38
    with st u show ?thesis by (auto split: if_splits)
  next
    case FPD_41
    with st u show ?thesis
      by (auto simp: test_and_clear_bit_def test_bit_def pending_def flush_calls_def
          log_def map_vol_def split: if_splits)
  next
    case FPD_42
    obtain err v where f: "flush_delta c (vol s) = (err, v)" by (cases "flush_delta c (vol s)")
    with fd have "TUX3_COMMIT_PENDING_BIT \<in> backend_state v \<longrightarrow>
        TUX3_COMMIT_PENDING_BIT \<in> backend_state (vol s)"
      by (metis snd_conv)
    with FPD_42 st u f show ?thesis
      by (auto simp: call_flush_delta_def test_bit_def pending_def flush_calls_def
          log_def split: if_splits)
  next
    case (FPD_out e)
    with st u show ?thesis by (auto split: if_splits)
  qed
qed

lemma run_threads_budget:
  assumes fd: "\<forall>v. TUX3_COMMIT_PENDING_BIT \<in> backend_state (snd (flush_delta c v)) \<longrightarrow>
                 TUX3_COMMIT_PENDING_BIT \<in> backend_state v"
  shows "flush_calls (snd (run_threads (fpd_step c) sched (pcs, s))) +
           flushing (fst (run_threads (fpd_step c) sched (pcs, s))) +
           pending (snd (run_threads (fpd_step c) sched (pcs, s))) \<le>
         flush_calls s + flushing pcs + pending s"
proof (induction sched arbitrary: pcs s)
  case Nil
  show ?case by simp
next
  case (Cons i sched)
  show ?case
  proof (cases "i < length pcs")
    case False
    with Cons.IH [of pcs s] show ?thesis by simp
  next
    case True
    obtain pc' s' where st: "fpd_step c (pcs ! i) s = (pc', s')"
      by (cases "fpd_step c (pcs ! i) s")
    from fpd_step_budget [OF fd True st] Cons.IH [of "pcs[i := pc']" s'] True st
    show ?thesis by simp
  qed
qed

lemma flushing_replicate: "flushing (replicate n FPD_38) = 0"
  by (simp add: flushing_def)


lemma fpd_step_flush_calls:
  "fpd_step c pc s = (pc', s') \<Longrightarrow>
     flush_calls s' = flush_calls s + (if pc = FPD_42 then 1 else 0)"
  by (cases pc)
     (auto simp: test_and_clear_bit_def call_flush_delta_def flush_calls_def log_def
       map_vol_def split: if_splits prod.splits)

lemma fpd_step_progress:
  assumes inv: "fpd_progress K pcs s"
    and i: "i < length pcs"
    and st: "fpd_step c (pcs ! i) s = (pc', s')"
  shows "fpd_progress K (pcs[i := pc']) s'"
proof -
  note fc = fpd_step_flush_calls [OF st]
  from inv have K: "K \<le> flush_calls s" by (simp add: fpd_progress_def)
  from inv consider
    (A) "test_bit TUX3_COMMIT_PENDING_BIT s" "\<forall>pc \<in> set pcs. pc = FPD_38 \<or> pc = FPD_41"
    | (B) j where "j < length pcs" "pcs ! j = FPD_42"
    | (C) "K + 1 \<le> flush_calls s"
    by (auto simp: fpd_progress_def)
  then show ?thesis
  proof cases
    case A
    from A(2) i have "pcs ! i = FPD_38 \<or> pcs ! i = FPD_41" by simp
    then show ?thesis
    proof
      assume p: "pcs ! i = FPD_38"
      with st A(1) have "pc' = FPD_41" "s' = s" by auto
      moreover from A(2) have "\<forall>pc \<in> set (pcs[i := FPD_41]). pc = FPD_38 \<or> pc = FPD_41"
        by (metis insertE set_update_subset_insert subsetD)
      ultimately show ?thesis using A(1) K by (simp add: fpd_progress_def)
    next
      assume p: "pcs ! i = FPD_41"
      with st A(1) have "pc' = FPD_42" by (auto simp: test_and_clear_bit_def)
      with i have "i < length (pcs[i := pc']) \<and> pcs[i := pc'] ! i = FPD_42" by simp
      with K fc p show ?thesis by (auto simp: fpd_progress_def)
    qed
  next
    case B
    show ?thesis
    proof (cases "i = j")
      case True
      with B fc K show ?thesis by (simp add: fpd_progress_def)
    next
      case False
      with B have "j < length (pcs[i := pc']) \<and> pcs[i := pc'] ! j = FPD_42" by simp
      with K fc show ?thesis by (auto simp: fpd_progress_def)
    qed
  next
    case C
    with fc show ?thesis by (simp add: fpd_progress_def)
  qed
qed

lemma run_threads_progress:
  "fpd_progress K pcs s \<Longrightarrow>
     fpd_progress K (fst (run_threads (fpd_step c) sched (pcs, s)))
       (snd (run_threads (fpd_step c) sched (pcs, s)))"
proof (induction sched arbitrary: pcs s)
  case Nil
  then show ?case by simp
next
  case (Cons i sched)
  show ?case
  proof (cases "i < length pcs")
    case False
    with Cons.IH [OF Cons.prems] show ?thesis by simp
  next
    case True
    obtain pc' s' where st: "fpd_step c (pcs ! i) s = (pc', s')"
      by (cases "fpd_step c (pcs ! i) s")
    from Cons.IH [OF fpd_step_progress [OF Cons.prems True st]] True st
    show ?thesis by simp
  qed
qed

lemma run_threads_length:
  "length (fst (run_threads step sched (pcs, s))) = length pcs"
  by (induction sched arbitrary: pcs s) (auto split: prod.splits)

lemma fpd_progress_start:
  "fpd_progress (flush_calls s) (replicate n FPD_38) s \<longleftrightarrow>
     test_bit TUX3_COMMIT_PENDING_BIT s"
  by (auto simp: fpd_progress_def)

lemma wb_alone:
  "flush_calls (snd (run_threads (wb_step c) sched ([pc], s))) \<le>
     flush_calls s + (if pc \<in> {WB_201, WB_204, WB_205, WB_207} then 1 else 0)"
proof (induction sched arbitrary: pc s)
  case Nil
  show ?case by simp
next
  case (Cons i sched)
  show ?case
  proof (cases "i < 1")
    case False
    with Cons.IH [of pc s] show ?thesis by simp
  next
    case True
    obtain pc' s' where st: "wb_step c pc s = (pc', s')" by (cases "wb_step c pc s")
    with True have r: "run_threads (wb_step c) (i # sched) ([pc], s) =
        run_threads (wb_step c) sched ([pc'], s')"
      by simp
    from st have "flush_calls s' + (if pc' \<in> {WB_201, WB_204, WB_205, WB_207} then 1 else 0) \<le>
        flush_calls s + (if pc \<in> {WB_201, WB_204, WB_205, WB_207} then 1 else 0)"
      by (cases pc)
         (auto simp: clear_bit_def call_flush_delta_def flush_calls_def log_def map_vol_def
           split: if_splits prod.splits)
    with Cons.IH [of pc' s'] r show ?thesis by simp
  qed
qed

text \<open>
  Claim C1, amended. In the sync flusher \<^verbatim>\<open>flush_pending_delta\<close> gives up
  \<^verbatim>\<open>TUX3_COMMIT_PENDING_BIT\<close> only through the atomic \<^verbatim>\<open>test_and_clear_bit\<close> of
  line 41. Let any number of threads run it under any schedule, with a \<^verbatim>\<open>flush_delta\<close>
  that does not set the flag itself: \<^verbatim>\<open>flush_delta\<close> is called at most once, not at all
  if the flag was clear, and exactly once if the flag was set and every thread has
  finished. \<^verbatim>\<open>tux3_writeback\<close> tests the flag (line 204) and clears it (line 205) in two
  steps; one thread running it alone calls \<^verbatim>\<open>flush_delta\<close> at most once.
\<close>

theorem flush_pending_delta_elects_one:
  assumes fd: "\<forall>v. TUX3_COMMIT_PENDING_BIT \<in> backend_state (snd (flush_delta c v)) \<longrightarrow>
                 TUX3_COMMIT_PENDING_BIT \<in> backend_state v"
  shows "flush_calls (snd (run_threads (fpd_step c) sched (replicate n FPD_38, s))) \<le>
           flush_calls s + 1 \<and>
         (\<not> test_bit TUX3_COMMIT_PENDING_BIT s \<longrightarrow>
            flush_calls (snd (run_threads (fpd_step c) sched (replicate n FPD_38, s))) \<le>
              flush_calls s) \<and>
         (test_bit TUX3_COMMIT_PENDING_BIT s \<and> 0 < n \<and>
          (\<forall>pc \<in> set (fst (run_threads (fpd_step c) sched (replicate n FPD_38, s))).
             \<exists>err. pc = FPD_out err) \<longrightarrow>
            flush_calls (snd (run_threads (fpd_step c) sched (replicate n FPD_38, s))) =
              flush_calls s + 1) \<and>
         flush_calls (snd (run_threads (wb_step c) sched' ([WB_201], s))) \<le> flush_calls s + 1"
proof -
  let ?pcs = "fst (run_threads (fpd_step c) sched (replicate n FPD_38, s))"
  let ?s = "snd (run_threads (fpd_step c) sched (replicate n FPD_38, s))"
  from run_threads_budget [OF fd, of sched "replicate n FPD_38" s]
  have b: "flush_calls ?s \<le> flush_calls s + pending s"
    by (simp add: flushing_replicate)
  then have 1: "flush_calls ?s \<le> flush_calls s + 1"
    by (simp add: pending_def split: if_splits)
  from b have 2: "\<not> test_bit TUX3_COMMIT_PENDING_BIT s \<longrightarrow> flush_calls ?s \<le> flush_calls s"
    by (auto simp: pending_def)
  have 3: "flush_calls ?s = flush_calls s + 1"
    if p: "test_bit TUX3_COMMIT_PENDING_BIT s" and n: "0 < n"
      and out: "\<forall>pc \<in> set ?pcs. \<exists>err. pc = FPD_out err"
  proof -
    from p have "fpd_progress (flush_calls s) (replicate n FPD_38) s"
      by (simp add: fpd_progress_start)
    then have pr: "fpd_progress (flush_calls s) ?pcs ?s" by (rule run_threads_progress)
    have len: "length ?pcs = n" by (simp add: run_threads_length)
    with n have m: "?pcs ! 0 \<in> set ?pcs" by simp
    with out obtain err where "?pcs ! 0 = FPD_out err" by blast
    with m have nA: "\<not> (\<forall>pc \<in> set ?pcs. pc = FPD_38 \<or> pc = FPD_41)"
      by (metis fpd_pc.distinct(5) fpd_pc.distinct(9))
    have nB: "\<not> (\<exists>j < length ?pcs. ?pcs ! j = FPD_42)"
    proof
      assume "\<exists>j < length ?pcs. ?pcs ! j = FPD_42"
      then obtain j where "j < length ?pcs" "?pcs ! j = FPD_42" by blast
      then have "FPD_42 \<in> set ?pcs" by (metis nth_mem)
      with out show False by auto
    qed
    from pr nA nB have "flush_calls s + 1 \<le> flush_calls ?s"
      by (simp add: fpd_progress_def)
    with 1 show ?thesis by simp
  qed
  from wb_alone [of c sched' WB_201 s]
  have 4: "flush_calls (snd (run_threads (wb_step c) sched' ([WB_201], s))) \<le> flush_calls s + 1"
    by simp
  from 1 2 3 4 show ?thesis by blast
qed

text \<open>
  Claim C1, as stated, fails for \<^verbatim>\<open>tux3_writeback\<close>: two threads both see the flag set
  at line 204 before either clears it at line 205, and both call \<^verbatim>\<open>flush_delta\<close> for
  the one pending delta.
\<close>

theorem tux3_writeback_flushes_twice:
  "test_bit TUX3_COMMIT_PENDING_BIT state_pending \<and> flush_calls state_pending = 0 \<and>
   run_threads (wb_step spec_collab) [0, 1, 0, 1, 0, 1, 0, 1] ([WB_201, WB_201], state_pending) =
     ([WB_215, WB_215],
      state0\<lparr>vol := sb0\<lparr>committed_delta := 2\<rparr>,
        trace := [Ev_clear_bit TUX3_COMMIT_PENDING_BIT, Ev_clear_bit TUX3_COMMIT_PENDING_BIT,
                  Ev_flush_delta, Ev_flush_delta]\<rparr>) \<and>
   flush_calls
     (snd (run_threads (wb_step spec_collab) [0, 1, 0, 1, 0, 1, 0, 1]
        ([WB_201, WB_201], state_pending))) = 2"
  by (simp add: eval_defs state_pending_def flush_calls_def)


text \<open>The same for \<^verbatim>\<open>flush_pending_delta\<close>.\<close>

lemma fpd_run_alone:
  "run_interfered (fpd_step c) (replicate 3 (\<lambda>v. v)) (FPD_38, s) =
     (case flush_pending_delta c s of (err, s') \<Rightarrow> (FPD_out err, s'))"
  by (simp add: numeral_eq_Suc flush_pending_delta_def test_and_clear_bit_def
      split: prod.splits)

text \<open>
  And for the flush of \<^verbatim>\<open>tux3_writeback\<close>, from the wait of line 201 with the flag set.
\<close>

lemma wb_run_alone:
  "test_bit TUX3_COMMIT_PENDING_BIT s \<Longrightarrow>
     run_interfered (wb_step c) (replicate 5 (\<lambda>v. v)) (WB_201, s) =
       (WB_ret 1,
        (snd (call_flush_delta c (clear_bit TUX3_COMMIT_PENDING_BIT s)))\<lparr>nr_pages := 0\<rparr>)"
  by (simp add: numeral_eq_Suc)

lemma spec_flush_delta_keeps_pending:
  "\<forall>v. TUX3_COMMIT_PENDING_BIT \<in> backend_state (snd (flush_delta spec_collab v)) \<longrightarrow>
         TUX3_COMMIT_PENDING_BIT \<in> backend_state v"
  by (simp add: spec_collab_def spec_flush_delta_def)

text \<open>
  Two threads race for one pending delta: both pass the test of line 38, one wins at
  line 41 and flushes. With nothing pending nobody flushes.
\<close>

theorem flush_pending_delta_elects_one_witness:
  "test_bit TUX3_COMMIT_PENDING_BIT state_pending \<and> flush_calls state_pending = 0 \<and>
   run_threads (fpd_step spec_collab) [0, 1, 0, 1, 0, 1] (replicate 2 FPD_38, state_pending) =
     ([FPD_out 0, FPD_out 0],
      state0\<lparr>vol := sb0\<lparr>committed_delta := 1\<rparr>,
        trace := [Ev_test_and_clear_bit TUX3_COMMIT_PENDING_BIT,
                  Ev_test_and_clear_bit TUX3_COMMIT_PENDING_BIT, Ev_flush_delta]\<rparr>) \<and>
   flush_calls
     (snd (run_threads (fpd_step spec_collab) [0, 1, 0, 1, 0, 1]
        (replicate 2 FPD_38, state_pending))) = 1 \<and>
   \<not> test_bit TUX3_COMMIT_PENDING_BIT state0 \<and>
   flush_calls
     (snd (run_threads (fpd_step spec_collab) [0, 1, 0, 1, 0, 1]
        (replicate 2 FPD_38, state0))) = 0"
proof -
  let ?run = "run_threads (fpd_step spec_collab) [0, 1, 0, 1, 0, 1]
     (replicate 2 FPD_38, state_pending)"
  have p: "test_bit TUX3_COMMIT_PENDING_BIT state_pending" "flush_calls state_pending = 0"
    by (simp_all add: eval_defs state_pending_def flush_calls_def)
  have np: "\<not> test_bit TUX3_COMMIT_PENDING_BIT state0" "flush_calls state0 = 0"
    by (simp_all add: eval_defs flush_calls_def)
  have rep: "replicate 2 FPD_38 = [FPD_38, FPD_38]"
    by (simp add: numeral_2_eq_2)
  have r: "?run =
     ([FPD_out 0, FPD_out 0],
      state0\<lparr>vol := sb0\<lparr>committed_delta := 1\<rparr>,
        trace := [Ev_test_and_clear_bit TUX3_COMMIT_PENDING_BIT,
                  Ev_test_and_clear_bit TUX3_COMMIT_PENDING_BIT, Ev_flush_delta]\<rparr>)"
    by (simp add: rep eval_defs state_pending_def)
  then have out: "\<forall>pc \<in> set (fst ?run). \<exists>err. pc = FPD_out err" by simp
  from flush_pending_delta_elects_one [OF spec_flush_delta_keeps_pending,
      of "[0, 1, 0, 1, 0, 1]" 2 state_pending] p out
  have a: "flush_calls (snd ?run) = 1" by simp
  from flush_pending_delta_elects_one [OF spec_flush_delta_keeps_pending,
      of "[0, 1, 0, 1, 0, 1]" 2 state0] np
  have b: "flush_calls (snd (run_threads (fpd_step spec_collab) [0, 1, 0, 1, 0, 1]
        (replicate 2 FPD_38, state0))) = 0"
    by simp
  from p np r a b show ?thesis by simp
qed


end
